theory Spec2Isabelle
  imports Main
begin

section \<open>Expression cleaning of the goto-program conversion (goto\_clean\_expr.cpp)\<close>

text \<open>
  A shallow embedding of \<^verbatim>\<open>src/goto-programs/goto_clean_expr.cpp\<close>: the
  classifier \<^verbatim>\<open>needs_cleaning\<close>, the desugarer \<^verbatim>\<open>rewrite_boolean\<close>, the
  lowering engine \<^verbatim>\<open>clean_expr\<close> with \<^verbatim>\<open>clean_expr_address_of\<close> and
  \<^verbatim>\<open>remove_gcc_conditional_expression\<close>, and \<^verbatim>\<open>make_compound_literal\<close>.
  C++ reference parameters become explicit state passing: a function that mutates
  \<^verbatim>\<open>expr\<close>, \<^verbatim>\<open>dest\<close> and the converter object returns the new expression,
  the new instruction list and the new converter state. A failed \<^verbatim>\<open>PRECONDITION\<close>,
  \<^verbatim>\<open>INVARIANT\<close> or \<^verbatim>\<open>DATA_INVARIANT\<close> aborts the program; it is the
  \<open>Inl\<close> branch of the result.
\<close>

subsection \<open>Data model\<close>

type_synonym irep_idt = string
type_synonym source_locationt = string

text \<open>
  Modelled from the spec: the types \<^verbatim>\<open>typet\<close> and \<^verbatim>\<open>exprt\<close> of \<^verbatim>\<open>util/type.h\<close>
  and \<^verbatim>\<open>util/expr.h\<close>, which are not among the sources. A type is an irep; only
  its id is inspected by the code modelled here.
\<close>

datatype typet = Typet (type_id: irep_idt)

abbreviation bool_typet :: typet where "bool_typet \<equiv> Typet ''bool''"
abbreviation empty_typet :: typet where "empty_typet \<equiv> Typet ''empty''"

text \<open>
  An expression node (``a tagged tree node with an operator/kind tag, zero or
  more ordered child expressions, and a semantic type''): the id, the type, the
  ordered operands, and the named
  sub-ireps the code reads: \<^verbatim>\<open>statement\<close> (of a side effect), \<^verbatim>\<open>identifier\<close>
  (of a symbol), \<^verbatim>\<open>value\<close> (of a constant) and the source location. A named
  sub-irep that is not set reads as the empty string.
\<close>

datatype exprt =
  Exprt (expr_id: irep_idt) (expr_type: typet) (operands: "exprt list")
        (get_statement: irep_idt) (get_identifier: irep_idt) (get_value: irep_idt)
        (source_location: source_locationt)

abbreviation ID_and :: irep_idt where "ID_and \<equiv> ''and''"
abbreviation ID_or :: irep_idt where "ID_or \<equiv> ''or''"
abbreviation ID_implies :: irep_idt where "ID_implies \<equiv> ''=>''"
abbreviation ID_if :: irep_idt where "ID_if \<equiv> ''if''"
abbreviation ID_comma :: irep_idt where "ID_comma \<equiv> ''comma''"
abbreviation ID_typecast :: irep_idt where "ID_typecast \<equiv> ''typecast''"
abbreviation ID_side_effect :: irep_idt where "ID_side_effect \<equiv> ''side_effect''"
abbreviation ID_compound_literal :: irep_idt where "ID_compound_literal \<equiv> ''compound_literal''"
abbreviation ID_forall :: irep_idt where "ID_forall \<equiv> ''forall''"
abbreviation ID_exists :: irep_idt where "ID_exists \<equiv> ''exists''"
abbreviation ID_address_of :: irep_idt where "ID_address_of \<equiv> ''address_of''"
abbreviation ID_index :: irep_idt where "ID_index \<equiv> ''index''"
abbreviation ID_dereference :: irep_idt where "ID_dereference \<equiv> ''dereference''"
abbreviation ID_string_constant :: irep_idt where "ID_string_constant \<equiv> ''string_constant''"
abbreviation ID_symbol :: irep_idt where "ID_symbol \<equiv> ''symbol''"
abbreviation ID_constant :: irep_idt where "ID_constant \<equiv> ''constant''"
abbreviation ID_nil :: irep_idt where "ID_nil \<equiv> ''nil''"
abbreviation ID_true :: irep_idt where "ID_true \<equiv> ''true''"
abbreviation ID_false :: irep_idt where "ID_false \<equiv> ''false''"
abbreviation ID_assign :: irep_idt where "ID_assign \<equiv> ''assign''"
abbreviation ID_function_call :: irep_idt where "ID_function_call \<equiv> ''function_call''"
abbreviation ID_statement_expression :: irep_idt where
  "ID_statement_expression \<equiv> ''statement_expression''"
abbreviation ID_gcc_conditional_expression :: irep_idt where
  "ID_gcc_conditional_expression \<equiv> ''gcc_conditional_expression''"

text \<open>
  Modelled from the spec: the constructors and tests of \<^verbatim>\<open>util/expr.h\<close> and
  \<^verbatim>\<open>util/std_expr.h\<close> the code calls, which are not among the sources; the ids
  above stand for the entries of \<^verbatim>\<open>util/irep_ids.def\<close>. The default-constructed
  \<^verbatim>\<open>exprt()\<close> has the empty id; \<^verbatim>\<open>nil_exprt()\<close> has the id \<^verbatim>\<open>nil\<close>. The
  three-argument \<^verbatim>\<open>if_exprt\<close> takes its type from the true case.
\<close>

definition exprt_empty :: exprt where
  "exprt_empty = Exprt [] (Typet []) [] [] [] [] []"

definition nil_exprt :: exprt where
  "nil_exprt = Exprt ID_nil (Typet []) [] [] [] [] []"

definition is_nil :: "exprt \<Rightarrow> bool" where
  "is_nil e = (expr_id e = ID_nil)"

definition is_not_nil :: "exprt \<Rightarrow> bool" where
  "is_not_nil e = (expr_id e \<noteq> ID_nil)"

definition is_boolean :: "exprt \<Rightarrow> bool" where
  "is_boolean e = (type_id (expr_type e) = ''bool'')"

definition true_exprt :: exprt where
  "true_exprt = Exprt ID_constant bool_typet [] [] [] ID_true []"

definition false_exprt :: exprt where
  "false_exprt = Exprt ID_constant bool_typet [] [] [] ID_false []"

definition if_exprt4 :: "exprt \<Rightarrow> exprt \<Rightarrow> exprt \<Rightarrow> typet \<Rightarrow> exprt" where
  "if_exprt4 cond t f ty = Exprt ID_if ty [cond, t, f] [] [] [] []"

definition if_exprt :: "exprt \<Rightarrow> exprt \<Rightarrow> exprt \<Rightarrow> exprt" where
  "if_exprt cond t f = if_exprt4 cond t f (expr_type t)"

definition typecast_exprt :: "exprt \<Rightarrow> typet \<Rightarrow> exprt" where
  "typecast_exprt op ty = Exprt ID_typecast ty [op] [] [] [] []"

definition set_operands :: "exprt \<Rightarrow> exprt list \<Rightarrow> exprt" where
  "set_operands e ops =
     Exprt (expr_id e) (expr_type e) ops (get_statement e) (get_identifier e) (get_value e)
       (source_location e)"

definition add_source_location :: "exprt \<Rightarrow> source_locationt \<Rightarrow> exprt" where
  "add_source_location e loc =
     Exprt (expr_id e) (expr_type e) (operands e) (get_statement e) (get_identifier e)
       (get_value e) loc"

text \<open>
  The ways the program stops: a violated contract of the tree (\<^verbatim>\<open>PRECONDITION\<close>,
  \<^verbatim>\<open>INVARIANT\<close>, \<^verbatim>\<open>DATA_INVARIANT\<close>, \<^verbatim>\<open>UNREACHABLE\<close>), a failure
  inside a collaborator, and the recursion budget of the model running out.
\<close>

datatype error =
  Precondition_violated | Invariant_violated | Unreachable | Collaborator_failed | Out_of_fuel

subsection \<open>The classifier: needs\_cleaning\<close>

fun needs_cleaning :: "exprt \<Rightarrow> bool"
  and needs_cleaning_operands :: "exprt list \<Rightarrow> bool" where
  "needs_cleaning (Exprt i ty ops stmt ident val loc) =
     (if i = ID_side_effect \<or> i = ID_compound_literal \<or> i = ID_comma then True
      else if i = ID_forall \<or> i = ID_exists then False
      else needs_cleaning_operands ops)"
| "needs_cleaning_operands [] = False"
| "needs_cleaning_operands (op # ops) =
     (if needs_cleaning op then True else needs_cleaning_operands ops)"

subsection \<open>The desugarer: rewrite\_boolean\<close>

text \<open>
  The loop of \<^verbatim>\<open>rewrite_boolean\<close> walks the operands from the last to the first
  (a reverse iterator); it is called on the reversed operand list. \<open>i\<close> is the id of
  the node being rewritten, \<open>tmp\<close> the chain built so far.
\<close>

fun rewrite_boolean_loop :: "irep_idt \<Rightarrow> exprt list \<Rightarrow> exprt \<Rightarrow> error + exprt" where
  "rewrite_boolean_loop i [] tmp = Inr tmp"
| "rewrite_boolean_loop i (op # rest) tmp =
     (if \<not> is_boolean op then Inl Invariant_violated
      else if i = ID_and then rewrite_boolean_loop i rest (if_exprt op tmp false_exprt)
      else if i = ID_or then rewrite_boolean_loop i rest (if_exprt op true_exprt tmp)
      else Inl Unreachable)"

text \<open>
  \<^verbatim>\<open>expr_try_dynamic_cast<implies_exprt>\<close> succeeds on the id \<^verbatim>\<open>=>\<close> and
  validates that the node is binary.
\<close>

definition rewrite_boolean :: "exprt \<Rightarrow> error + exprt" where
  "rewrite_boolean expr =
     (if \<not> (expr_id expr = ID_and \<or> expr_id expr = ID_or \<or> expr_id expr = ID_implies)
      then Inl Precondition_violated
      else if \<not> is_boolean expr then Inl Precondition_violated
      else if expr_id expr = ID_implies then
        (case operands expr of
           [lhs, rhs] \<Rightarrow> Inr (if_exprt4 lhs rhs true_exprt bool_typet)
         | _ \<Rightarrow> Inl Invariant_violated)
      else rewrite_boolean_loop (expr_id expr) (rev (operands expr))
             (if expr_id expr = ID_and then true_exprt else false_exprt))"

subsection \<open>Statements, instructions and the converter state\<close>

text \<open>
  Modelled from the spec: the statements of \<^verbatim>\<open>util/std_code.h\<close> the code builds
  before handing them to \<^verbatim>\<open>convert\<close>, the instructions of a goto program
  (``declare, assign, guarded branch, assert, skip instructions''), the
  \<^verbatim>\<open>lifetimet\<close> of \<^verbatim>\<open>goto_convert_class.h\<close> and the fields of \<^verbatim>\<open>symbolt\<close> the
  code writes; none of these declarations is among the sources.
\<close>

datatype codet =
  code_declt exprt
| code_deadt exprt
| code_assignt exprt exprt source_locationt
| code_expressiont exprt
| code_skipt

datatype goto_program_instruction_typet =
  DECL | DEAD | ASSIGN | OTHER | GOTO | SKIP | FUNCTION_CALL

text \<open>
  An instruction: its kind, its statement and its guard (the condition of a
  \<^verbatim>\<open>GOTO\<close>; nil otherwise).
\<close>

datatype instructiont =
  Instruction (instr_type: goto_program_instruction_typet) (instr_code: codet)
              (instr_guard: exprt)

type_synonym goto_programt = "instructiont list"

datatype lifetimet = STATIC_GLOBAL | AUTOMATIC_LOCAL | DYNAMIC

record symbolt =
  name :: irep_idt
  base_name :: irep_idt
  symbol_type :: typet
  symbol_value :: exprt
  location :: source_locationt
  symbol_mode :: irep_idt
  is_static_lifetime :: bool

text \<open>
  Modelled from the spec: the members of \<^verbatim>\<open>goto_convertt\<close> (declared in
  \<^verbatim>\<open>goto_convert_class.h\<close>) the code reads or writes: the symbol table
  (an association list from names to symbols), the scope stack of
  \<^verbatim>\<open>targets\<close> (the registered scope-exit statements, oldest first), the current
  \<^verbatim>\<open>lifetime\<close> and \<^verbatim>\<open>tmp_symbol_prefix\<close>.
\<close>

record statet =
  symbol_table :: "(irep_idt \<times> symbolt) list"
  scope_stack :: "codet list"
  lifetime :: lifetimet
  tmp_symbol_prefix :: string

type_synonym 'a resultt = "error + ('a \<times> goto_programt \<times> statet)"

definition symbol_expr :: "symbolt \<Rightarrow> exprt" where
  "symbol_expr s = Exprt ID_symbol (symbol_type s) [] [] (name s) [] []"

subsection \<open>Collaborators whose code is not among the sources\<close>

text \<open>
  \<^verbatim>\<open>clean_expr\<close> calls members of \<^verbatim>\<open>goto_convertt\<close> and utilities whose
  code lives in other files. They are parameters of the model: a record of
  functions, each taking and returning what the C++ function reads and writes
  (the expression or statement, the destination program, the converter state),
  and free to fail. A \<^verbatim>\<open>symbolt &\<close> returned by an allocator is modelled by the
  symbol's value; the collaborators only add symbols to the table, they do not
  rewrite an existing one. \<open>default_result_is_used\<close> is the default argument of
  \<^verbatim>\<open>clean_expr\<close>'s last parameter, declared in \<^verbatim>\<open>goto_convert_class.h\<close>.
\<close>

record envt =
  find_source_location :: "exprt \<Rightarrow> source_locationt"
  default_result_is_used :: bool
  new_tmp_symbol ::
    "typet \<Rightarrow> string \<Rightarrow> goto_programt \<Rightarrow> source_locationt \<Rightarrow> irep_idt \<Rightarrow> statet
       \<Rightarrow> symbolt resultt"
  convert :: "codet \<Rightarrow> goto_programt \<Rightarrow> irep_idt \<Rightarrow> statet \<Rightarrow> error + (goto_programt \<times> statet)"
  convert_assign ::
    "codet \<Rightarrow> goto_programt \<Rightarrow> irep_idt \<Rightarrow> statet \<Rightarrow> error + (goto_programt \<times> statet)"
  generate_ifthenelse ::
    "exprt \<Rightarrow> goto_programt \<Rightarrow> goto_programt \<Rightarrow> source_locationt \<Rightarrow> goto_programt
       \<Rightarrow> irep_idt \<Rightarrow> statet \<Rightarrow> error + (goto_programt \<times> statet)"
  remove_side_effect ::
    "exprt \<Rightarrow> goto_programt \<Rightarrow> irep_idt \<Rightarrow> bool \<Rightarrow> bool \<Rightarrow> statet \<Rightarrow> exprt resultt"
  remove_statement_expression ::
    "exprt \<Rightarrow> goto_programt \<Rightarrow> irep_idt \<Rightarrow> bool \<Rightarrow> statet \<Rightarrow> exprt resultt"
  remove_function_call ::
    "exprt \<Rightarrow> goto_programt \<Rightarrow> irep_idt \<Rightarrow> bool \<Rightarrow> statet \<Rightarrow> exprt resultt"
  assignment_lhs_needs_temporary :: "exprt \<Rightarrow> bool"
  skip_typecast :: "exprt \<Rightarrow> exprt"

text \<open>
  Modelled from the spec: \<^verbatim>\<open>typecast_exprt::conditional_cast\<close> of
  \<^verbatim>\<open>util/std_expr.h\<close>, which is not among the sources; the cast is added only
  when the type differs (``type-adjusted if necessary'').
\<close>

definition conditional_cast :: "exprt \<Rightarrow> typet \<Rightarrow> exprt" where
  "conditional_cast e ty = (if expr_type e = ty then e else typecast_exprt e ty)"

text \<open>
  Modelled from the spec: \<^verbatim>\<open>has_subexpr\<close> of \<^verbatim>\<open>util/expr_util.h\<close>, which is
  not among the sources; it tells whether the expression or any subexpression has
  the given id (``the body must contain no side effect'').
\<close>

fun has_subexpr :: "exprt \<Rightarrow> irep_idt \<Rightarrow> bool"
  and has_subexpr_operands :: "exprt list \<Rightarrow> irep_idt \<Rightarrow> bool" where
  "has_subexpr (Exprt i ty ops stmt ident val loc) j =
     (if i = j then True else has_subexpr_operands ops j)"
| "has_subexpr_operands [] j = False"
| "has_subexpr_operands (op # ops) j =
     (if has_subexpr op j then True else has_subexpr_operands ops j)"

text \<open>
  Modelled from the spec: \<^verbatim>\<open>get_fresh_aux_symbol\<close> of \<^verbatim>\<open>util/fresh_symbol.h\<close>,
  which is not among the sources: the symbol allocator, ``guaranteed unique name,
  registered before use''. The new name is the prefix, the base name and a
  run of \<^verbatim>\<open>$\<close> longer than every name in the table, so it is in no entry of
  the table; the new symbol is appended to the table with automatic lifetime
  and no value.
\<close>

definition fresh_suffix :: "(irep_idt \<times> symbolt) list \<Rightarrow> string" where
  "fresh_suffix tbl = replicate (Suc (fold max (map (\<lambda>p. length (fst p)) tbl) 0)) CHR ''$''"

definition fresh_name :: "string \<Rightarrow> string \<Rightarrow> (irep_idt \<times> symbolt) list \<Rightarrow> irep_idt" where
  "fresh_name name_prefix basename_prefix tbl =
     name_prefix @ ''::'' @ basename_prefix @ fresh_suffix tbl"

definition get_fresh_aux_symbol ::
  "typet \<Rightarrow> string \<Rightarrow> string \<Rightarrow> source_locationt \<Rightarrow> irep_idt \<Rightarrow> (irep_idt \<times> symbolt) list
     \<Rightarrow> symbolt \<times> (irep_idt \<times> symbolt) list" where
  "get_fresh_aux_symbol ty name_prefix basename_prefix loc mode tbl =
     (let s = \<lparr> name = fresh_name name_prefix basename_prefix tbl,
                base_name = basename_prefix @ fresh_suffix tbl, symbol_type = ty,
                symbol_value = nil_exprt, location = loc, symbol_mode = mode,
                is_static_lifetime = False \<rparr>
      in (s, tbl @ [(name s, s)]))"

text \<open>
  A write through a \<^verbatim>\<open>symbolt &\<close> changes the entry of the table that has the
  symbol's name.
\<close>

definition symbol_table_write :: "symbolt \<Rightarrow> (irep_idt \<times> symbolt) list \<Rightarrow> (irep_idt \<times> symbolt) list"
  where
  "symbol_table_write s tbl = map (\<lambda>(k, v). if k = name s then (k, s) else (k, v)) tbl"

text \<open>
  Modelled from the spec: \<^verbatim>\<open>goto_convertt::copy\<close>, which is not among the sources;
  it appends one instruction of the given kind holding the statement (``a
  declare instruction is emitted immediately'').
\<close>

definition copy :: "codet \<Rightarrow> goto_program_instruction_typet \<Rightarrow> goto_programt \<Rightarrow> goto_programt" where
  "copy code ty dest = dest @ [Instruction ty code nil_exprt]"

text \<open>
  Modelled from the spec: \<^verbatim>\<open>targets.scope_stack.add\<close>, which is not among the
  sources; it registers a scope-exit statement for the current block.
\<close>

definition scope_stack_add :: "codet \<Rightarrow> statet \<Rightarrow> statet" where
  "scope_stack_add code st = st\<lparr> scope_stack := scope_stack st @ [code] \<rparr>"

subsection \<open>make\_compound\_literal\<close>

definition make_compound_literal ::
  "envt \<Rightarrow> exprt \<Rightarrow> goto_programt \<Rightarrow> irep_idt \<Rightarrow> statet \<Rightarrow> exprt resultt" where
  "make_compound_literal env expr dest mode st =
     (let source_location = find_source_location env expr;
          (fresh, tbl1) =
            get_fresh_aux_symbol (expr_type expr) (tmp_symbol_prefix st) ''literal''
              source_location mode (symbol_table st);
          new_symbol = fresh\<lparr> is_static_lifetime := (lifetime st \<noteq> AUTOMATIC_LOCAL),
                             symbol_value := expr \<rparr>;
          st1 = st\<lparr> symbol_table := symbol_table_write new_symbol tbl1 \<rparr>;
          result = add_source_location (symbol_expr new_symbol) source_location;
          dest1 = (if \<not> is_static_lifetime new_symbol then copy (code_declt result) DECL dest
                   else dest)
      in case convert env (code_assignt result expr source_location) dest1 mode st1 of
           Inl e \<Rightarrow> Inl e
         | Inr (dest2, st2) \<Rightarrow>
             Inr (result, dest2,
                  if \<not> is_static_lifetime new_symbol then scope_stack_add (code_deadt result) st2
                  else st2))"

subsection \<open>The loops over operands\<close>

text \<open>
  \<^verbatim>\<open>Forall_operands(it, expr) f(*it)\<close>: the operands are rewritten in place from
  the first to the last, each call continuing with the program and state the
  previous one left.
\<close>

fun forall_operands ::
  "(exprt \<Rightarrow> goto_programt \<Rightarrow> statet \<Rightarrow> exprt resultt) \<Rightarrow> exprt list \<Rightarrow> goto_programt \<Rightarrow> statet
     \<Rightarrow> (exprt list) resultt" where
  "forall_operands f [] dest st = Inr ([], dest, st)"
| "forall_operands f (op # ops) dest st =
     (case f op dest st of
        Inl e \<Rightarrow> Inl e
      | Inr (op', dest1, st1) \<Rightarrow>
          (case forall_operands f ops dest1 st1 of
             Inl e \<Rightarrow> Inl e
           | Inr (ops', dest2, st2) \<Rightarrow> Inr (op' # ops', dest2, st2)))"

text \<open>
  The body both comma loops share for an operand whose value is discarded:
  \<^verbatim>\<open>clean_expr(*it, dest, mode, false); if(it->is_not_nil())
  convert(code_expressiont(*it), dest, mode);\<close>. \<open>clean\<close> is the recursive call
  \<^verbatim>\<open>clean_expr\<close>.
\<close>

definition clean_discarded ::
  "(exprt \<Rightarrow> goto_programt \<Rightarrow> bool \<Rightarrow> statet \<Rightarrow> exprt resultt) \<Rightarrow> envt \<Rightarrow> irep_idt
     \<Rightarrow> exprt \<Rightarrow> goto_programt \<Rightarrow> statet \<Rightarrow> exprt resultt" where
  "clean_discarded clean env mode op dest st =
     (case clean op dest False st of
        Inl e \<Rightarrow> Inl e
      | Inr (op', dest1, st1) \<Rightarrow>
          if is_not_nil op' then
            (case convert env (code_expressiont op') dest1 mode st1 of
               Inl e \<Rightarrow> Inl e
             | Inr (dest2, st2) \<Rightarrow> Inr (op', dest2, st2))
          else Inr (op', dest1, st1))"

text \<open>
  The loop of the comma case when the result is used (lines 297 to 315): the last
  operand is swapped into \<open>result\<close> and cleaned as used, the others are cleaned as
  discarded. The value is the final \<open>result\<close>.
\<close>

fun comma_operands_used ::
  "(exprt \<Rightarrow> goto_programt \<Rightarrow> bool \<Rightarrow> statet \<Rightarrow> exprt resultt) \<Rightarrow> envt \<Rightarrow> irep_idt
     \<Rightarrow> exprt list \<Rightarrow> exprt \<Rightarrow> goto_programt \<Rightarrow> statet \<Rightarrow> exprt resultt" where
  "comma_operands_used clean env mode [] result dest st = Inr (result, dest, st)"
| "comma_operands_used clean env mode (op # ops) result dest st =
     (if ops = [] then clean op dest True st
      else
        (case clean_discarded clean env mode op dest st of
           Inl e \<Rightarrow> Inl e
         | Inr (op', dest1, st1) \<Rightarrow> comma_operands_used clean env mode ops result dest1 st1))"

text \<open>
  The loop of the comma case of \<^verbatim>\<open>clean_expr_address_of\<close> (lines 479 to 494): the
  last operand is swapped into \<open>result\<close> as it is.
\<close>

fun comma_operands_address_of ::
  "(exprt \<Rightarrow> goto_programt \<Rightarrow> bool \<Rightarrow> statet \<Rightarrow> exprt resultt) \<Rightarrow> envt \<Rightarrow> irep_idt
     \<Rightarrow> exprt list \<Rightarrow> exprt \<Rightarrow> goto_programt \<Rightarrow> statet \<Rightarrow> exprt resultt" where
  "comma_operands_address_of clean env mode [] result dest st = Inr (result, dest, st)"
| "comma_operands_address_of clean env mode (op # ops) result dest st =
     (if ops = [] then Inr (op, dest, st)
      else
        (case clean_discarded clean env mode op dest st of
           Inl e \<Rightarrow> Inl e
         | Inr (op', dest1, st1) \<Rightarrow>
             comma_operands_address_of clean env mode ops result dest1 st1))"

subsection \<open>The cases of clean\_expr\<close>

text \<open>
  Each case of the dispatch of \<^verbatim>\<open>clean_expr\<close> is a function of its own, taking
  the recursive call \<open>clean\<close> (\<^verbatim>\<open>clean_expr\<close> with the same \<^verbatim>\<open>mode\<close>) as a
  parameter. The casts \<^verbatim>\<open>to_if_expr\<close>, \<^verbatim>\<open>to_typecast_expr\<close>,
  \<^verbatim>\<open>to_binary_expr\<close>, \<^verbatim>\<open>to_address_of_expr\<close>, \<^verbatim>\<open>to_index_expr\<close> and
  \<^verbatim>\<open>to_dereference_expr\<close> (modelled from the spec: they are declared in
  \<^verbatim>\<open>util/std_expr.h\<close> and \<^verbatim>\<open>util/pointer_expr.h\<close>) validate the number of
  operands; a wrong arity is a contract violation.
\<close>

text \<open>The conditional, lines 194 to 290.\<close>

definition clean_expr_if ::
  "(exprt \<Rightarrow> goto_programt \<Rightarrow> bool \<Rightarrow> statet \<Rightarrow> exprt resultt) \<Rightarrow> envt \<Rightarrow> exprt
     \<Rightarrow> goto_programt \<Rightarrow> irep_idt \<Rightarrow> bool \<Rightarrow> statet \<Rightarrow> exprt resultt" where
  "clean_expr_if clean env expr dest mode result_is_used st =
     (case operands expr of
        [cond, true_case, false_case] \<Rightarrow>
          (case clean cond dest True st of
             Inl e \<Rightarrow> Inl e
           | Inr (cond', dest1, st1) \<Rightarrow>
               let expr1 = set_operands expr [cond', true_case, false_case] in
               if \<not> needs_cleaning true_case \<and> \<not> needs_cleaning false_case
               then Inr (expr1, dest1, st1)
               else if \<not> is_boolean cond' then Inl Invariant_violated
               else
                 let source_location = find_source_location env expr1 in
                 (case clean true_case [] result_is_used st1 of
                    Inl e \<Rightarrow> Inl e
                  | Inr (true_case', tmp_true, st2) \<Rightarrow>
                 (case clean false_case [] result_is_used st2 of
                    Inl e \<Rightarrow> Inl e
                  | Inr (false_case', tmp_false, st3) \<Rightarrow>
                 if result_is_used then
                   (case new_tmp_symbol env (expr_type expr1) ''if_expr'' dest1
                           source_location mode st3 of
                      Inl e \<Rightarrow> Inl e
                    | Inr (new_symbol, dest2, st4) \<Rightarrow>
                   (case convert env
                           (code_assignt (symbol_expr new_symbol) true_case' source_location)
                           tmp_true mode st4 of
                      Inl e \<Rightarrow> Inl e
                    | Inr (tmp_true1, st5) \<Rightarrow>
                   (case convert env
                           (code_assignt (symbol_expr new_symbol) false_case' source_location)
                           tmp_false mode st5 of
                      Inl e \<Rightarrow> Inl e
                    | Inr (tmp_false1, st6) \<Rightarrow>
                   (case generate_ifthenelse env cond' tmp_true1 tmp_false1 source_location
                           dest2 mode st6 of
                      Inl e \<Rightarrow> Inl e
                    | Inr (dest3, st7) \<Rightarrow> Inr (symbol_expr new_symbol, dest3, st7)))))
                 else
                   (case (if is_not_nil true_case'
                          then convert env
                                 (code_expressiont (typecast_exprt true_case' empty_typet))
                                 tmp_true mode st3
                          else Inr (tmp_true, st3)) of
                      Inl e \<Rightarrow> Inl e
                    | Inr (tmp_true1, st4) \<Rightarrow>
                   (case (if is_not_nil false_case'
                          then convert env
                                 (code_expressiont (typecast_exprt false_case' empty_typet))
                                 tmp_false mode st4
                          else Inr (tmp_false, st4)) of
                      Inl e \<Rightarrow> Inl e
                    | Inr (tmp_false1, st5) \<Rightarrow>
                   (case generate_ifthenelse env cond' tmp_true1 tmp_false1 source_location
                           dest1 mode st5 of
                      Inl e \<Rightarrow> Inl e
                    | Inr (dest2, st6) \<Rightarrow> Inr (nil_exprt, dest2, st6)))))))
      | _ \<Rightarrow> Inl Invariant_violated)"

text \<open>The comma expression, lines 291 to 334.\<close>

definition clean_expr_comma ::
  "(exprt \<Rightarrow> goto_programt \<Rightarrow> bool \<Rightarrow> statet \<Rightarrow> exprt resultt) \<Rightarrow> envt \<Rightarrow> exprt
     \<Rightarrow> goto_programt \<Rightarrow> irep_idt \<Rightarrow> bool \<Rightarrow> statet \<Rightarrow> exprt resultt" where
  "clean_expr_comma clean env expr dest mode result_is_used st =
     (if result_is_used then
        comma_operands_used clean env mode (operands expr) exprt_empty dest st
      else
        (case forall_operands (clean_discarded clean env mode) (operands expr) dest st of
           Inl e \<Rightarrow> Inl e
         | Inr (ops', dest1, st1) \<Rightarrow> Inr (nil_exprt, dest1, st1)))"

text \<open>The typecast, lines 335 to 346.\<close>

definition clean_expr_typecast ::
  "(exprt \<Rightarrow> goto_programt \<Rightarrow> bool \<Rightarrow> statet \<Rightarrow> exprt resultt) \<Rightarrow> exprt
     \<Rightarrow> goto_programt \<Rightarrow> bool \<Rightarrow> statet \<Rightarrow> exprt resultt" where
  "clean_expr_typecast clean expr dest result_is_used st =
     (case operands expr of
        [op] \<Rightarrow>
          (case clean op dest result_is_used st of
             Inl e \<Rightarrow> Inl e
           | Inr (op', dest1, st1) \<Rightarrow>
               if is_nil op' then Inr (nil_exprt, dest1, st1)
               else Inr (set_operands expr [op'], dest1, st1))
      | _ \<Rightarrow> Inl Invariant_violated)"

text \<open>
  The assignment whose right-hand side is a function call, lines 373 to 405; the
  caller has checked that there are two operands.
\<close>

definition clean_expr_assign_call ::
  "(exprt \<Rightarrow> goto_programt \<Rightarrow> bool \<Rightarrow> statet \<Rightarrow> exprt resultt) \<Rightarrow> envt \<Rightarrow> exprt
     \<Rightarrow> goto_programt \<Rightarrow> irep_idt \<Rightarrow> bool \<Rightarrow> statet \<Rightarrow> exprt resultt" where
  "clean_expr_assign_call clean env expr dest mode result_is_used st =
     (case operands expr of
        [lhs0, rhs0] \<Rightarrow>
          (case clean lhs0 dest (default_result_is_used env) st of
             Inl e \<Rightarrow> Inl e
           | Inr (lhs, dest1, st1) \<Rightarrow>
               let must_use_rhs = assignment_lhs_needs_temporary env lhs in
               (case (if must_use_rhs then remove_function_call env rhs0 dest1 mode True st1
                      else Inr (rhs0, dest1, st1)) of
                  Inl e \<Rightarrow> Inl e
                | Inr (rhs, dest2, st2) \<Rightarrow>
                    let new_lhs = skip_typecast env lhs;
                        new_rhs = conditional_cast rhs (expr_type new_lhs)
                    in (case convert_assign env
                               (code_assignt new_lhs new_rhs (source_location expr))
                               dest2 mode st2 of
                          Inl e \<Rightarrow> Inl e
                        | Inr (dest3, st3) \<Rightarrow>
                            if result_is_used
                            then Inr (if must_use_rhs then new_rhs else lhs, dest3, st3)
                            else Inr (nil_exprt, dest3, st3))))
      | _ \<Rightarrow> Inl Invariant_violated)"

text \<open>
  The code after the dispatch, lines 422 to 438: every operand is cleaned with
  the default usage context, then a side effect is removed and a compound literal
  is replaced by its operand.
\<close>

definition clean_expr_default ::
  "(exprt \<Rightarrow> goto_programt \<Rightarrow> bool \<Rightarrow> statet \<Rightarrow> exprt resultt) \<Rightarrow> envt \<Rightarrow> exprt
     \<Rightarrow> goto_programt \<Rightarrow> irep_idt \<Rightarrow> bool \<Rightarrow> statet \<Rightarrow> exprt resultt" where
  "clean_expr_default clean env expr dest mode result_is_used st =
     (case forall_operands (\<lambda>op d s. clean op d (default_result_is_used env) s)
             (operands expr) dest st of
        Inl e \<Rightarrow> Inl e
      | Inr (ops', dest1, st1) \<Rightarrow>
          let expr1 = set_operands expr ops' in
          if expr_id expr1 = ID_side_effect
          then remove_side_effect env expr1 dest1 mode result_is_used False st1
          else if expr_id expr1 = ID_compound_literal then
            (case ops' of
               [op] \<Rightarrow> Inr (op, dest1, st1)
             | _ \<Rightarrow> Inl Invariant_violated)
          else Inr (expr1, dest1, st1))"

subsection \<open>clean\_expr, clean\_expr\_address\_of and remove\_gcc\_conditional\_expression\<close>

text \<open>
  The three functions call each other. Their bodies are written first, with the
  functions they call recursively as parameters: \<open>clean\<close> is \<^verbatim>\<open>clean_expr\<close>,
  \<open>clean_address_of\<close> is \<^verbatim>\<open>clean_expr_address_of\<close> and \<open>remove_gcc\<close> is
  \<^verbatim>\<open>remove_gcc_conditional_expression\<close>, each with the \<^verbatim>\<open>mode\<close> of the call.
\<close>

definition clean_expr_body ::
  "(exprt \<Rightarrow> goto_programt \<Rightarrow> bool \<Rightarrow> statet \<Rightarrow> exprt resultt)
     \<Rightarrow> (exprt \<Rightarrow> goto_programt \<Rightarrow> statet \<Rightarrow> exprt resultt)
     \<Rightarrow> (exprt \<Rightarrow> goto_programt \<Rightarrow> statet \<Rightarrow> exprt resultt)
     \<Rightarrow> envt \<Rightarrow> exprt \<Rightarrow> goto_programt \<Rightarrow> irep_idt \<Rightarrow> bool \<Rightarrow> statet \<Rightarrow> exprt resultt" where
  "clean_expr_body clean clean_address_of remove_gcc env expr dest mode result_is_used st =
     (if \<not> needs_cleaning expr then Inr (expr, dest, st)
      else if expr_id expr = ID_and \<or> expr_id expr = ID_or \<or> expr_id expr = ID_implies then
        (case rewrite_boolean expr of
           Inl e \<Rightarrow> Inl e
         | Inr expr' \<Rightarrow> clean expr' dest result_is_used st)
      else if expr_id expr = ID_if then
        clean_expr_if clean env expr dest mode result_is_used st
      else if expr_id expr = ID_comma then
        clean_expr_comma clean env expr dest mode result_is_used st
      else if expr_id expr = ID_typecast then
        clean_expr_typecast clean expr dest result_is_used st
      else if expr_id expr = ID_side_effect
              \<and> get_statement expr = ID_gcc_conditional_expression then
        remove_gcc expr dest st
      else if expr_id expr = ID_side_effect
              \<and> get_statement expr = ID_statement_expression then
        remove_statement_expression env expr dest mode result_is_used st
      else if expr_id expr = ID_side_effect \<and> get_statement expr = ID_assign
              \<and> length (operands expr) \<noteq> 2 then
        Inl Invariant_violated
      else if expr_id expr = ID_side_effect \<and> get_statement expr = ID_assign
              \<and> expr_id (operands expr ! 1) = ID_side_effect
              \<and> get_statement (operands expr ! 1) = ID_function_call then
        clean_expr_assign_call clean env expr dest mode result_is_used st
      else if (expr_id expr = ID_forall \<or> expr_id expr = ID_exists)
              \<and> has_subexpr expr ID_side_effect then
        Inl Invariant_violated
      else if expr_id expr = ID_address_of then
        (case operands expr of
           [object] \<Rightarrow>
             (case clean_address_of object dest st of
                Inl e \<Rightarrow> Inl e
              | Inr (object', dest1, st1) \<Rightarrow> Inr (set_operands expr [object'], dest1, st1))
         | _ \<Rightarrow> Inl Invariant_violated)
      else
        clean_expr_default clean env expr dest mode result_is_used st)"

definition clean_expr_address_of_body ::
  "(exprt \<Rightarrow> goto_programt \<Rightarrow> bool \<Rightarrow> statet \<Rightarrow> exprt resultt)
     \<Rightarrow> (exprt \<Rightarrow> goto_programt \<Rightarrow> statet \<Rightarrow> exprt resultt)
     \<Rightarrow> envt \<Rightarrow> exprt \<Rightarrow> goto_programt \<Rightarrow> irep_idt \<Rightarrow> statet \<Rightarrow> exprt resultt" where
  "clean_expr_address_of_body clean clean_address_of env expr dest mode st =
     (if expr_id expr = ID_compound_literal then
        (case operands expr of
           [op] \<Rightarrow>
             (case clean op dest (default_result_is_used env) st of
                Inl e \<Rightarrow> Inl e
              | Inr (op', dest1, st1) \<Rightarrow> make_compound_literal env op' dest1 mode st1)
         | _ \<Rightarrow> Inl Invariant_violated)
      else if expr_id expr = ID_string_constant then Inr (expr, dest, st)
      else if expr_id expr = ID_index then
        (case operands expr of
           [array, index] \<Rightarrow>
             (case clean_address_of array dest st of
                Inl e \<Rightarrow> Inl e
              | Inr (array', dest1, st1) \<Rightarrow>
                  (case clean index dest1 (default_result_is_used env) st1 of
                     Inl e \<Rightarrow> Inl e
                   | Inr (index', dest2, st2) \<Rightarrow>
                       Inr (set_operands expr [array', index'], dest2, st2)))
         | _ \<Rightarrow> Inl Invariant_violated)
      else if expr_id expr = ID_dereference then
        (case operands expr of
           [pointer] \<Rightarrow>
             (case clean pointer dest (default_result_is_used env) st of
                Inl e \<Rightarrow> Inl e
              | Inr (pointer', dest1, st1) \<Rightarrow> Inr (set_operands expr [pointer'], dest1, st1))
         | _ \<Rightarrow> Inl Invariant_violated)
      else if expr_id expr = ID_comma then
        (case comma_operands_address_of clean env mode (operands expr) exprt_empty dest st of
           Inl e \<Rightarrow> Inl e
         | Inr (result, dest1, st1) \<Rightarrow> clean_address_of result dest1 st1)
      else if expr_id expr = ID_side_effect then
        remove_side_effect env expr dest mode True True st
      else
        (case forall_operands clean_address_of (operands expr) dest st of
           Inl e \<Rightarrow> Inl e
         | Inr (ops', dest1, st1) \<Rightarrow> Inr (set_operands expr ops', dest1, st1)))"

definition remove_gcc_conditional_expression_body ::
  "(exprt \<Rightarrow> goto_programt \<Rightarrow> bool \<Rightarrow> statet \<Rightarrow> exprt resultt)
     \<Rightarrow> envt \<Rightarrow> exprt \<Rightarrow> goto_programt \<Rightarrow> statet \<Rightarrow> exprt resultt" where
  "remove_gcc_conditional_expression_body clean env expr dest st =
     (case operands expr of
        [op0, op1] \<Rightarrow>
          (case clean op0 dest (default_result_is_used env) st of
             Inl e \<Rightarrow> Inl e
           | Inr (op0', dest1, st1) \<Rightarrow>
               let if_expr =
                     add_source_location
                       (if_exprt4 (conditional_cast op0' bool_typet) op0' op1 (expr_type expr))
                       (source_location expr)
               in clean if_expr dest1 (default_result_is_used env) st1)
      | _ \<Rightarrow> Inl Invariant_violated)"

text \<open>
  \<^verbatim>\<open>clean_expr\<close> calls itself on the expression \<^verbatim>\<open>rewrite_boolean\<close> built and
  on what the collaborators return, so the recursion is not structural in the
  expression. The first argument is a budget for the depth of the recursion:
  every call passes one less to the calls it makes, and a call with no budget
  left stops with \<open>Out_of_fuel\<close>.
\<close>

function (sequential) clean_expr ::
  "nat \<Rightarrow> envt \<Rightarrow> exprt \<Rightarrow> goto_programt \<Rightarrow> irep_idt \<Rightarrow> bool \<Rightarrow> statet \<Rightarrow> exprt resultt"
  and clean_expr_address_of ::
  "nat \<Rightarrow> envt \<Rightarrow> exprt \<Rightarrow> goto_programt \<Rightarrow> irep_idt \<Rightarrow> statet \<Rightarrow> exprt resultt"
  and remove_gcc_conditional_expression ::
  "nat \<Rightarrow> envt \<Rightarrow> exprt \<Rightarrow> goto_programt \<Rightarrow> irep_idt \<Rightarrow> statet \<Rightarrow> exprt resultt" where
  "clean_expr 0 env expr dest mode result_is_used st = Inl Out_of_fuel"
| "clean_expr (Suc n) env expr dest mode result_is_used st =
     clean_expr_body
       (\<lambda>e d r s. clean_expr n env e d mode r s)
       (\<lambda>e d s. clean_expr_address_of n env e d mode s)
       (\<lambda>e d s. remove_gcc_conditional_expression n env e d mode s)
       env expr dest mode result_is_used st"
| "clean_expr_address_of 0 env expr dest mode st = Inl Out_of_fuel"
| "clean_expr_address_of (Suc n) env expr dest mode st =
     clean_expr_address_of_body
       (\<lambda>e d r s. clean_expr n env e d mode r s)
       (\<lambda>e d s. clean_expr_address_of n env e d mode s)
       env expr dest mode st"
| "remove_gcc_conditional_expression 0 env expr dest mode st = Inl Out_of_fuel"
| "remove_gcc_conditional_expression (Suc n) env expr dest mode st =
     remove_gcc_conditional_expression_body
       (\<lambda>e d r s. clean_expr n env e d mode r s)
       env expr dest st"

  by pat_completeness auto
termination
  by (relation "measure (\<lambda>x. case x of Inl (n, _) \<Rightarrow> n | Inr (Inl (n, _)) \<Rightarrow> n
                                    | Inr (Inr (n, _)) \<Rightarrow> n)") auto


subsection \<open>The claims' own notions\<close>

text \<open>
  The kinds that make an expression need cleaning, and the subexpressions of an
  expression that are reachable without passing through a quantifier: the
  expression itself and, unless it is a \<^verbatim>\<open>forall\<close> or an \<^verbatim>\<open>exists\<close>, what is
  reachable from its operands.
\<close>

definition is_cleaning_kind :: "exprt \<Rightarrow> bool" where
  "is_cleaning_kind e =
     (expr_id e = ID_side_effect \<or> expr_id e = ID_compound_literal \<or> expr_id e = ID_comma)"

fun reachable_subexprs :: "exprt \<Rightarrow> exprt list"
  and reachable_subexprs_operands :: "exprt list \<Rightarrow> exprt list" where
  "reachable_subexprs (Exprt i ty ops stmt ident val loc) =
     Exprt i ty ops stmt ident val loc #
       (if i = ID_forall \<or> i = ID_exists then [] else reachable_subexprs_operands ops)"
| "reachable_subexprs_operands [] = []"
| "reachable_subexprs_operands (op # ops) =
     reachable_subexprs op @ reachable_subexprs_operands ops"

text \<open>
  The right-nested chains the specification describes for \<^verbatim>\<open>&&\<close> and \<^verbatim>\<open>||\<close>:
  \<open>a\<^sub>1 ? (a\<^sub>2 ? (\<dots> : false) : false) : false\<close>, and its dual.
\<close>

fun and_chain :: "exprt list \<Rightarrow> exprt" where
  "and_chain [] = true_exprt"
| "and_chain (a # as) = if_exprt a (and_chain as) false_exprt"

fun or_chain :: "exprt list \<Rightarrow> exprt" where
  "or_chain [] = false_exprt"
| "or_chain (a # as) = if_exprt a true_exprt (or_chain as)"




subsection \<open>A reference instance of the collaborators\<close>

text \<open>
  Modelled from the spec: the collaborators of section 6 of the specification,
  whose code is not among the sources, each doing the least its interface asks. The
  theorems below hold for every instance of the collaborators; this one
  evaluates them on concrete inputs.
\<close>

fun skip_typecast_ref :: "exprt \<Rightarrow> exprt" where
  "skip_typecast_ref (Exprt i ty [op] stmt ident val loc) =
     (if i = ID_typecast then skip_typecast_ref op else Exprt i ty [op] stmt ident val loc)"
| "skip_typecast_ref e = e"

definition convert_ref ::
  "codet \<Rightarrow> goto_programt \<Rightarrow> irep_idt \<Rightarrow> statet \<Rightarrow> error + (goto_programt \<times> statet)" where
  "convert_ref code dest mode st =
     Inr (dest @ [Instruction
                    (case code of
                       code_declt _ \<Rightarrow> DECL
                     | code_deadt _ \<Rightarrow> DEAD
                     | code_assignt _ _ _ \<Rightarrow> ASSIGN
                     | code_expressiont _ \<Rightarrow> OTHER
                     | code_skipt \<Rightarrow> SKIP)
                    code nil_exprt], st)"

definition new_tmp_symbol_ref ::
  "typet \<Rightarrow> string \<Rightarrow> goto_programt \<Rightarrow> source_locationt \<Rightarrow> irep_idt \<Rightarrow> statet
     \<Rightarrow> symbolt resultt" where
  "new_tmp_symbol_ref ty suffix dest loc mode st =
     (let (s, tbl) =
            get_fresh_aux_symbol ty (tmp_symbol_prefix st) (''tmp_'' @ suffix) loc mode
              (symbol_table st)
      in Inr (s, copy (code_declt (symbol_expr s)) DECL dest,
              scope_stack_add (code_deadt (symbol_expr s)) (st\<lparr> symbol_table := tbl \<rparr>)))"

definition generate_ifthenelse_ref ::
  "exprt \<Rightarrow> goto_programt \<Rightarrow> goto_programt \<Rightarrow> source_locationt \<Rightarrow> goto_programt
     \<Rightarrow> irep_idt \<Rightarrow> statet \<Rightarrow> error + (goto_programt \<times> statet)" where
  "generate_ifthenelse_ref guard true_case false_case loc dest mode st =
     Inr (dest
          @ [Instruction GOTO code_skipt (Exprt ''not'' bool_typet [guard] [] [] [] loc)]
          @ true_case
          @ [Instruction GOTO code_skipt true_exprt]
          @ false_case
          @ [Instruction SKIP code_skipt nil_exprt], st)"

definition remove_side_effect_ref ::
  "exprt \<Rightarrow> goto_programt \<Rightarrow> irep_idt \<Rightarrow> bool \<Rightarrow> statet \<Rightarrow> exprt resultt" where
  "remove_side_effect_ref expr dest mode result_is_used st =
     (if result_is_used then
        (case new_tmp_symbol_ref (expr_type expr) ''side_effect'' dest (source_location expr)
                mode st of
           Inl e \<Rightarrow> Inl e
         | Inr (s, dest1, st1) \<Rightarrow>
             Inr (symbol_expr s,
                  copy (code_assignt (symbol_expr s) expr (source_location expr)) ASSIGN dest1,
                  st1))
      else Inr (nil_exprt, copy (code_expressiont expr) FUNCTION_CALL dest, st))"

definition ref_env :: envt where
  "ref_env =
     \<lparr> find_source_location = source_location,
       default_result_is_used = True,
       new_tmp_symbol = new_tmp_symbol_ref,
       convert = convert_ref,
       convert_assign = convert_ref,
       generate_ifthenelse = generate_ifthenelse_ref,
       remove_side_effect = (\<lambda>expr dest mode result_is_used address_taken st.
          remove_side_effect_ref expr dest mode result_is_used st),
       remove_statement_expression = remove_side_effect_ref,
       remove_function_call = remove_side_effect_ref,
       assignment_lhs_needs_temporary = (\<lambda>lhs. expr_id lhs \<noteq> ID_symbol),
       skip_typecast = skip_typecast_ref \<rparr>"

text \<open>
  The concrete inputs of the evaluations: a converter state with an empty symbol
  table inside a block, the symbols \<open>a\<close>, \<open>b\<close>, \<open>x\<close> (integers) and \<open>c\<close>, \<open>d\<close>
  (booleans), the constant \<open>0\<close>, a call \<open>f()\<close>, and expressions built from them.
\<close>

definition st0 :: statet where
  "st0 = \<lparr> symbol_table = [], scope_stack = [], lifetime = AUTOMATIC_LOCAL,
           tmp_symbol_prefix = ''main'' \<rparr>"

definition int_typet :: typet where
  "int_typet = Typet ''signedbv''"

definition mk_symbol :: "irep_idt \<Rightarrow> typet \<Rightarrow> exprt" where
  "mk_symbol x ty = Exprt ID_symbol ty [] [] x [] []"

definition ex_a :: exprt where "ex_a = mk_symbol ''a'' int_typet"
definition ex_b :: exprt where "ex_b = mk_symbol ''b'' int_typet"
definition ex_x :: exprt where "ex_x = mk_symbol ''x'' int_typet"
definition ex_c :: exprt where "ex_c = mk_symbol ''c'' bool_typet"
definition ex_d :: exprt where "ex_d = mk_symbol ''d'' bool_typet"

definition zero :: exprt where
  "zero = Exprt ID_constant int_typet [] [] [] ''0'' []"

definition call_f :: exprt where
  "call_f =
     Exprt ID_side_effect int_typet
       [mk_symbol ''f'' (Typet ''code''), Exprt ''arguments'' (Typet []) [] [] [] [] []]
       ID_function_call [] [] ''f.c:1''"

definition comma_expr :: "exprt list \<Rightarrow> exprt" where
  "comma_expr ops =
     Exprt ID_comma (if ops = [] then Typet [] else expr_type (last ops)) ops [] [] [] []"

definition nary_expr :: "irep_idt \<Rightarrow> typet \<Rightarrow> exprt list \<Rightarrow> exprt" where
  "nary_expr i ty ops = Exprt i ty ops [] [] [] []"

definition quantifier_expr :: "irep_idt \<Rightarrow> exprt \<Rightarrow> exprt" where
  "quantifier_expr i body = Exprt i bool_typet [mk_symbol ''i'' int_typet, body] [] [] [] []"


definition ex_comma_ab :: exprt where "ex_comma_ab = comma_expr [ex_a, ex_b]"

definition ex_if :: exprt where "ex_if = if_exprt ex_c ex_comma_ab zero"

definition ex_comma_ac :: exprt where "ex_comma_ac = comma_expr [ex_a, ex_c]"

definition ex_if_cond :: exprt where "ex_if_cond = if_exprt ex_comma_ac ex_a ex_b"

definition ex_forall :: exprt where "ex_forall = quantifier_expr ID_forall ex_comma_ac"

definition ex_plus :: exprt where "ex_plus = nary_expr ''+'' int_typet [ex_x, call_f]"




text \<open>An expression statement and an assignment as \<open>convert_ref\<close> emits them.\<close>

definition expression_statement :: "exprt \<Rightarrow> instructiont" where
  "expression_statement e = Instruction OTHER (code_expressiont e) nil_exprt"

definition assign_statement :: "exprt \<Rightarrow> exprt \<Rightarrow> instructiont" where
  "assign_statement lhs rhs = Instruction ASSIGN (code_assignt lhs rhs []) nil_exprt"

text \<open>The program of \<open>ex_if\<close> when its result is discarded.\<close>

definition ex_if_discarded_program :: goto_programt where
  "ex_if_discarded_program =
     [Instruction GOTO code_skipt (nary_expr ''not'' bool_typet [ex_c]),
      expression_statement ex_a,
      expression_statement ex_b,
      Instruction GOTO code_skipt true_exprt,
      expression_statement (typecast_exprt zero empty_typet),
      Instruction SKIP code_skipt nil_exprt]"


text \<open>The temporary \<open>new_tmp_symbol_ref\<close> allocates for \<open>ex_if\<close> in \<open>st0\<close>.\<close>

definition ex_tmp :: symbolt where
  "ex_tmp = \<lparr> name = ''main::tmp_if_expr$'', base_name = ''tmp_if_expr$'',
              symbol_type = int_typet, symbol_value = nil_exprt, location = [],
              symbol_mode = ''C'', is_static_lifetime = False \<rparr>"

definition st_tmp :: statet where
  "st_tmp = st0\<lparr> symbol_table := [(name ex_tmp, ex_tmp)],
                  scope_stack := [code_deadt (symbol_expr ex_tmp)] \<rparr>"

text \<open>
  The comma expression \<open>(f(), b, x)\<close>, the assignment \<open>x = f()\<close>, and the
  instruction \<open>remove_side_effect_ref\<close> emits for a call whose result is discarded.
\<close>

definition ex_comma_fbx :: exprt where "ex_comma_fbx = comma_expr [call_f, ex_b, ex_x]"


definition function_call_statement :: "exprt \<Rightarrow> instructiont" where
  "function_call_statement e = Instruction FUNCTION_CALL (code_expressiont e) nil_exprt"





text \<open>
  The temporary \<open>make_compound_literal\<close> allocates for \<open>0\<close> in \<open>st0\<close>: as the
  allocator returns it, and as it is after the writes through the reference.
\<close>

definition ex_fresh :: symbolt where
  "ex_fresh = \<lparr> name = ''main::literal$'', base_name = ''literal$'',
                symbol_type = int_typet, symbol_value = nil_exprt, location = [],
                symbol_mode = ''C'', is_static_lifetime = False \<rparr>"

definition ex_literal :: symbolt where
  "ex_literal = ex_fresh\<lparr> is_static_lifetime := (lifetime st0 \<noteq> AUTOMATIC_LOCAL),
                          symbol_value := zero \<rparr>"

definition ex_literal_ref :: exprt where
  "ex_literal_ref = Exprt ID_symbol (expr_type zero) [] [] (name ex_fresh) [] []"

section \<open>Properties\<close>

subsection \<open>Auxiliary facts\<close>

lemma needs_cleaning_sel:
  "needs_cleaning e =
     (if expr_id e = ID_side_effect \<or> expr_id e = ID_compound_literal \<or> expr_id e = ID_comma
      then True
      else if expr_id e = ID_forall \<or> expr_id e = ID_exists then False
      else needs_cleaning_operands (operands e))"
  by (cases e) simp

lemma needs_cleaning_operands_iff:
  "needs_cleaning_operands ops = (\<exists>op \<in> set ops. needs_cleaning op)"
  by (induction ops) auto

lemma needs_cleaning_reachable:
  "needs_cleaning e = list_ex is_cleaning_kind (reachable_subexprs e)"
  "needs_cleaning_operands es = list_ex is_cleaning_kind (reachable_subexprs_operands es)"
  by (induction e and es rule: needs_cleaning_needs_cleaning_operands.induct)
     (auto simp: is_cleaning_kind_def)

lemma rewrite_boolean_loop_and:
  "\<forall>op \<in> set ops. is_boolean op \<Longrightarrow>
   rewrite_boolean_loop ID_and (rev ops) tmp =
     Inr (foldr (\<lambda>op t. if_exprt op t false_exprt) ops tmp)"
  by (induction ops arbitrary: tmp rule: rev_induct) auto

lemma rewrite_boolean_loop_or:
  "\<forall>op \<in> set ops. is_boolean op \<Longrightarrow>
   rewrite_boolean_loop ID_or (rev ops) tmp =
     Inr (foldr (\<lambda>op t. if_exprt op true_exprt t) ops tmp)"
  by (induction ops arbitrary: tmp rule: rev_induct) auto

lemma and_chain_foldr:
  "and_chain ops = foldr (\<lambda>op t. if_exprt op t false_exprt) ops true_exprt"
  by (induction ops) auto

lemma or_chain_foldr:
  "or_chain ops = foldr (\<lambda>op t. if_exprt op true_exprt t) ops false_exprt"
  by (induction ops) auto

lemma rewrite_boolean_loop_id:
  "rewrite_boolean_loop i ops tmp = Inr expr' \<Longrightarrow>
   expr_id tmp = ID_if \<or> expr_id tmp = ID_constant \<Longrightarrow>
   expr_id expr' = ID_if \<or> expr_id expr' = ID_constant"
  by (induction i ops tmp rule: rewrite_boolean_loop.induct)
     (auto simp: if_exprt_def if_exprt4_def split: if_splits)

lemma fold_max_ge: "x \<in> set xs \<Longrightarrow> x \<le> fold max xs (a::nat)"
proof (induction xs arbitrary: a)
  case Nil
  then show ?case by simp
next
  case (Cons y ys)
  have mono: "b \<le> fold max ys b" for b :: nat
    by (induction ys arbitrary: b) (auto intro: order_trans[OF max.cobounded2])
  show ?case
  proof (cases "x = y")
    case True
    then show ?thesis
      using mono[of "max y a"] by simp
  next
    case False
    then show ?thesis using Cons by simp
  qed
qed

text \<open>The allocator's name is new: it is longer than every name of the table.\<close>

lemma fresh_name_notin: "fresh_name pre base tbl \<notin> fst ` set tbl"
proof
  let ?k = "fresh_name pre base tbl"
  let ?m = "fold max (map (\<lambda>p. length (fst p)) tbl) 0"
  assume "?k \<in> fst ` set tbl"
  then obtain p where p: "p \<in> set tbl" "fst p = ?k" by auto
  from p(1) have "length (fst p) \<in> (\<lambda>p. length (fst p)) ` set tbl" by (rule imageI)
  then have "length (fst p) \<in> set (map (\<lambda>p. length (fst p)) tbl)" by simp
  then have "length (fst p) \<le> ?m" by (rule fold_max_ge)
  moreover have "length ?k > ?m"
    by (simp add: fresh_name_def fresh_suffix_def)
  ultimately show False using p(2) by simp
qed

lemma symbol_table_write_fresh:
  "name s' = k \<Longrightarrow> k \<notin> fst ` set tbl \<Longrightarrow>
   symbol_table_write s' (tbl @ [(k, s)]) = tbl @ [(k, s')]"
  by (induction tbl) (auto simp: symbol_table_write_def)

subsection \<open>The recursion budget\<close>

text \<open>
  A call that returns with some budget returns the same with any larger one: the
  budget only bounds the depth of the recursion, it does not change a result.
  The bodies are monotone in the functions they call: if \<open>g\<close> returns what \<open>f\<close>
  returns wherever \<open>f\<close> returns, a body that returns with \<open>f\<close> returns the same
  with \<open>g\<close>.
\<close>

lemma forall_operands_mono:
  assumes "\<And>x d s r. f x d s = Inr r \<Longrightarrow> g x d s = Inr r"
  shows "forall_operands f xs d s = Inr r \<Longrightarrow> forall_operands g xs d s = Inr r"
proof (induction xs arbitrary: d s r)
  case Nil
  then show ?case by simp
next
  case (Cons x xs)
  from Cons.prems obtain x' d1 s1 where fx: "f x d s = Inr (x', d1, s1)"
    by (auto split: sum.splits)
  with Cons.prems obtain xs' d2 s2 where rest: "forall_operands f xs d1 s1 = Inr (xs', d2, s2)"
    by (auto split: sum.splits)
  from fx have "g x d s = Inr (x', d1, s1)" by (rule assms)
  moreover from rest have "forall_operands g xs d1 s1 = Inr (xs', d2, s2)" by (rule Cons.IH)
  ultimately show ?case using Cons.prems fx rest by simp
qed

lemma clean_discarded_mono:
  assumes "\<And>x d b s r. f x d b s = Inr r \<Longrightarrow> g x d b s = Inr r"
  shows "clean_discarded f env mode x d s = Inr r \<Longrightarrow> clean_discarded g env mode x d s = Inr r"
proof -
  assume a: "clean_discarded f env mode x d s = Inr r"
  then obtain x' d1 s1 where fx: "f x d False s = Inr (x', d1, s1)"
    by (auto simp: clean_discarded_def split: sum.splits)
  then have "g x d False s = Inr (x', d1, s1)" by (rule assms)
  with a fx show ?thesis by (simp add: clean_discarded_def)
qed

lemma comma_operands_used_mono:
  assumes "\<And>x d b s r. f x d b s = Inr r \<Longrightarrow> g x d b s = Inr r"
  shows "comma_operands_used f env mode xs res d s = Inr r \<Longrightarrow>
         comma_operands_used g env mode xs res d s = Inr r"
proof (induction xs arbitrary: d s)
  case Nil
  then show ?case by simp
next
  case (Cons x xs)
  show ?case
  proof (cases "xs = []")
    case True
    then show ?thesis using Cons.prems assms by simp
  next
    case False
    with Cons.prems obtain x' d1 s1 where
      fx: "clean_discarded f env mode x d s = Inr (x', d1, s1)"
      by (auto split: sum.splits)
    then have "clean_discarded g env mode x d s = Inr (x', d1, s1)"
      using assms by (rule clean_discarded_mono[rotated])
    then show ?thesis using Cons.prems Cons.IH fx False by simp
  qed
qed

lemma comma_operands_address_of_mono:
  assumes "\<And>x d b s r. f x d b s = Inr r \<Longrightarrow> g x d b s = Inr r"
  shows "comma_operands_address_of f env mode xs res d s = Inr r \<Longrightarrow>
         comma_operands_address_of g env mode xs res d s = Inr r"
proof (induction xs arbitrary: d s)
  case Nil
  then show ?case by simp
next
  case (Cons x xs)
  show ?case
  proof (cases "xs = []")
    case True
    then show ?thesis using Cons.prems by simp
  next
    case False
    with Cons.prems obtain x' d1 s1 where
      fx: "clean_discarded f env mode x d s = Inr (x', d1, s1)"
      by (auto split: sum.splits)
    then have "clean_discarded g env mode x d s = Inr (x', d1, s1)"
      using assms by (rule clean_discarded_mono[rotated])
    then show ?thesis using Cons.prems Cons.IH fx False by simp
  qed
qed

lemma clean_expr_if_mono:
  assumes "\<And>x d b s r. f x d b s = Inr r \<Longrightarrow> g x d b s = Inr r"
  shows "clean_expr_if f env e d mode b s = Inr r \<Longrightarrow> clean_expr_if g env e d mode b s = Inr r"
proof -
  assume a: "clean_expr_if f env e d mode b s = Inr r"
  then obtain c t fa where ops: "operands e = [c, t, fa]"
    by (auto simp: clean_expr_if_def split: list.splits)
  with a obtain c' d1 s1 where fc: "f c d True s = Inr (c', d1, s1)"
    by (auto simp: clean_expr_if_def split: sum.splits)
  then have gc: "g c d True s = Inr (c', d1, s1)" by (rule assms)
  show ?thesis
  proof (cases "\<not> needs_cleaning t \<and> \<not> needs_cleaning fa")
    case True
    then show ?thesis using a ops fc gc by (simp add: clean_expr_if_def)
  next
    case False
    with a ops fc have bool: "is_boolean c'"
      by (auto simp: clean_expr_if_def Let_def split: if_splits)
    with a ops fc False obtain t' tt s2 where ft: "f t [] b s1 = Inr (t', tt, s2)"
      by (auto simp: clean_expr_if_def Let_def split: sum.splits)
    with a ops fc False bool obtain f' tf s3 where ff: "f fa [] b s2 = Inr (f', tf, s3)"
      by (auto simp: clean_expr_if_def Let_def split: sum.splits)
    from ft have gt: "g t [] b s1 = Inr (t', tt, s2)" by (rule assms)
    from ff have gf: "g fa [] b s2 = Inr (f', tf, s3)" by (rule assms)
    show ?thesis
      using a ops fc gc bool ft ff gt gf
      by (simp add: clean_expr_if_def Let_def False)
  qed
qed

lemma clean_expr_comma_mono:
  assumes "\<And>x d b s r. f x d b s = Inr r \<Longrightarrow> g x d b s = Inr r"
  shows "clean_expr_comma f env e d mode b s = Inr r \<Longrightarrow>
         clean_expr_comma g env e d mode b s = Inr r"
proof (cases b)
  case True
  assume "clean_expr_comma f env e d mode b s = Inr r"
  then show ?thesis
    using True comma_operands_used_mono[of f g, OF assms] by (simp add: clean_expr_comma_def)
next
  case False
  assume a: "clean_expr_comma f env e d mode b s = Inr r"
  then obtain ops' d1 s1 where
    fo: "forall_operands (clean_discarded f env mode) (operands e) d s = Inr (ops', d1, s1)"
    using False by (auto simp: clean_expr_comma_def split: sum.splits)
  have "forall_operands (clean_discarded g env mode) (operands e) d s = Inr (ops', d1, s1)"
    using fo
    by (rule forall_operands_mono[rotated]) (rule clean_discarded_mono[OF assms])
  then show ?thesis using a fo False by (simp add: clean_expr_comma_def)
qed

lemma clean_expr_typecast_mono:
  assumes "\<And>x d b s r. f x d b s = Inr r \<Longrightarrow> g x d b s = Inr r"
  shows "clean_expr_typecast f e d b s = Inr r \<Longrightarrow> clean_expr_typecast g e d b s = Inr r"
proof -
  assume a: "clean_expr_typecast f e d b s = Inr r"
  then obtain op where ops: "operands e = [op]"
    by (auto simp: clean_expr_typecast_def split: list.splits)
  with a obtain op' d1 s1 where fo: "f op d b s = Inr (op', d1, s1)"
    by (auto simp: clean_expr_typecast_def split: sum.splits)
  then have "g op d b s = Inr (op', d1, s1)" by (rule assms)
  then show ?thesis using a ops fo by (simp add: clean_expr_typecast_def)
qed

lemma clean_expr_assign_call_mono:
  assumes "\<And>x d b s r. f x d b s = Inr r \<Longrightarrow> g x d b s = Inr r"
  shows "clean_expr_assign_call f env e d mode b s = Inr r \<Longrightarrow>
         clean_expr_assign_call g env e d mode b s = Inr r"
proof -
  assume a: "clean_expr_assign_call f env e d mode b s = Inr r"
  then obtain l rh where ops: "operands e = [l, rh]"
    by (auto simp: clean_expr_assign_call_def split: list.splits)
  with a obtain l' d1 s1 where fo: "f l d (default_result_is_used env) s = Inr (l', d1, s1)"
    by (auto simp: clean_expr_assign_call_def split: sum.splits)
  then have "g l d (default_result_is_used env) s = Inr (l', d1, s1)" by (rule assms)
  then show ?thesis using a ops fo by (simp add: clean_expr_assign_call_def)
qed

lemma clean_expr_default_mono:
  assumes "\<And>x d b s r. f x d b s = Inr r \<Longrightarrow> g x d b s = Inr r"
  shows "clean_expr_default f env e d mode b s = Inr r \<Longrightarrow>
         clean_expr_default g env e d mode b s = Inr r"
proof -
  assume a: "clean_expr_default f env e d mode b s = Inr r"
  then obtain ops' d1 s1 where
    fo: "forall_operands (\<lambda>op d s. f op d (default_result_is_used env) s) (operands e) d s =
           Inr (ops', d1, s1)"
    by (auto simp: clean_expr_default_def split: sum.splits)
  have "forall_operands (\<lambda>op d s. g op d (default_result_is_used env) s) (operands e) d s =
           Inr (ops', d1, s1)"
    using fo by (rule forall_operands_mono[rotated]) (rule assms)
  then show ?thesis using a fo by (simp add: clean_expr_default_def)
qed

lemma if_mono:
  "(if c then x else y) = Inr r \<Longrightarrow>
   (c \<Longrightarrow> x = Inr r \<Longrightarrow> x' = Inr r) \<Longrightarrow>
   (\<not> c \<Longrightarrow> y = Inr r \<Longrightarrow> y' = Inr r) \<Longrightarrow>
   (if c then x' else y') = Inr r"
  by (simp split: if_split_asm)

lemma clean_expr_body_mono:
  assumes c: "\<And>x d b s r. f x d b s = Inr r \<Longrightarrow> g x d b s = Inr r"
    and a: "\<And>x d s r. fa x d s = Inr r \<Longrightarrow> ga x d s = Inr r"
    and r: "\<And>x d s r. fr x d s = Inr r \<Longrightarrow> gr x d s = Inr r"
    and body: "clean_expr_body f fa fr env e d mode b s = Inr r"
  shows "clean_expr_body g ga gr env e d mode b s = Inr r"
  using body unfolding clean_expr_body_def
proof (elim if_mono)
  assume "(case rewrite_boolean e of Inl e \<Rightarrow> Inl e | Inr expr' \<Rightarrow> f expr' d b s) = Inr r"
  then show "(case rewrite_boolean e of Inl e \<Rightarrow> Inl e | Inr expr' \<Rightarrow> g expr' d b s) = Inr r"
    by (auto split: sum.splits dest: c)
next
  assume "clean_expr_if f env e d mode b s = Inr r"
  then show "clean_expr_if g env e d mode b s = Inr r"
    by (rule clean_expr_if_mono[rotated]) (rule c)
next
  assume "clean_expr_comma f env e d mode b s = Inr r"
  then show "clean_expr_comma g env e d mode b s = Inr r"
    by (rule clean_expr_comma_mono[rotated]) (rule c)
next
  assume "clean_expr_typecast f e d b s = Inr r"
  then show "clean_expr_typecast g e d b s = Inr r"
    by (rule clean_expr_typecast_mono[rotated]) (rule c)
next
  assume "fr e d s = Inr r"
  then show "gr e d s = Inr r" by (rule r)
next
  assume "clean_expr_assign_call f env e d mode b s = Inr r"
  then show "clean_expr_assign_call g env e d mode b s = Inr r"
    by (rule clean_expr_assign_call_mono[rotated]) (rule c)
next
  assume "(case operands e of
             [] \<Rightarrow> Inl Invariant_violated
           | [object] \<Rightarrow>
               (case fa object d s of
                  Inl e \<Rightarrow> Inl e
                | Inr (object', dest1, st1) \<Rightarrow> Inr (set_operands e [object'], dest1, st1))
           | _ \<Rightarrow> Inl Invariant_violated) = Inr r"
  then show "(case operands e of
             [] \<Rightarrow> Inl Invariant_violated
           | [object] \<Rightarrow>
               (case ga object d s of
                  Inl e \<Rightarrow> Inl e
                | Inr (object', dest1, st1) \<Rightarrow> Inr (set_operands e [object'], dest1, st1))
           | _ \<Rightarrow> Inl Invariant_violated) = Inr r"
    by (auto split: sum.splits list.splits dest: a)
next
  assume "clean_expr_default f env e d mode b s = Inr r"
  then show "clean_expr_default g env e d mode b s = Inr r"
    by (rule clean_expr_default_mono[rotated]) (rule c)
qed


lemma clean_expr_address_of_body_mono:
  assumes c: "\<And>x d b s r. f x d b s = Inr r \<Longrightarrow> g x d b s = Inr r"
    and a: "\<And>x d s r. fa x d s = Inr r \<Longrightarrow> ga x d s = Inr r"
    and body: "clean_expr_address_of_body f fa env e d mode s = Inr r"
  shows "clean_expr_address_of_body g ga env e d mode s = Inr r"
  using body unfolding clean_expr_address_of_body_def
proof (elim if_mono)
  assume "(case operands e of
             [] \<Rightarrow> Inl Invariant_violated
           | [op] \<Rightarrow>
               (case f op d (default_result_is_used env) s of
                  Inl e \<Rightarrow> Inl e
                | Inr (op', dest1, st1) \<Rightarrow> make_compound_literal env op' dest1 mode st1)
           | _ \<Rightarrow> Inl Invariant_violated) = Inr r"
  then show "(case operands e of
             [] \<Rightarrow> Inl Invariant_violated
           | [op] \<Rightarrow>
               (case g op d (default_result_is_used env) s of
                  Inl e \<Rightarrow> Inl e
                | Inr (op', dest1, st1) \<Rightarrow> make_compound_literal env op' dest1 mode st1)
           | _ \<Rightarrow> Inl Invariant_violated) = Inr r"
    by (auto split: sum.splits list.splits dest: c)
next
  assume "(case operands e of
             [array, index] \<Rightarrow>
               (case fa array d s of
                  Inl e \<Rightarrow> Inl e
                | Inr (array', dest1, st1) \<Rightarrow>
                    (case f index dest1 (default_result_is_used env) st1 of
                       Inl e \<Rightarrow> Inl e
                     | Inr (index', dest2, st2) \<Rightarrow>
                         Inr (set_operands e [array', index'], dest2, st2)))
           | _ \<Rightarrow> Inl Invariant_violated) = Inr r"
  then obtain array index array' d1 s1 index' d2 s2 where
    ops: "operands e = [array, index]"
    and first: "fa array d s = Inr (array', d1, s1)"
    and second: "f index d1 (default_result_is_used env) s1 = Inr (index', d2, s2)"
    and res: "r = (set_operands e [array', index'], d2, s2)"
    by (auto split: sum.splits list.splits)
  from first have "ga array d s = Inr (array', d1, s1)" by (rule a)
  moreover from second have "g index d1 (default_result_is_used env) s1 = Inr (index', d2, s2)"
    by (rule c)
  ultimately show "(case operands e of
             [array, index] \<Rightarrow>
               (case ga array d s of
                  Inl e \<Rightarrow> Inl e
                | Inr (array', dest1, st1) \<Rightarrow>
                    (case g index dest1 (default_result_is_used env) st1 of
                       Inl e \<Rightarrow> Inl e
                     | Inr (index', dest2, st2) \<Rightarrow>
                         Inr (set_operands e [array', index'], dest2, st2)))
           | _ \<Rightarrow> Inl Invariant_violated) = Inr r"
    using ops res by simp
next
  assume "(case operands e of
             [] \<Rightarrow> Inl Invariant_violated
           | [pointer] \<Rightarrow>
               (case f pointer d (default_result_is_used env) s of
                  Inl e \<Rightarrow> Inl e
                | Inr (pointer', dest1, st1) \<Rightarrow> Inr (set_operands e [pointer'], dest1, st1))
           | _ \<Rightarrow> Inl Invariant_violated) = Inr r"
  then show "(case operands e of
             [] \<Rightarrow> Inl Invariant_violated
           | [pointer] \<Rightarrow>
               (case g pointer d (default_result_is_used env) s of
                  Inl e \<Rightarrow> Inl e
                | Inr (pointer', dest1, st1) \<Rightarrow> Inr (set_operands e [pointer'], dest1, st1))
           | _ \<Rightarrow> Inl Invariant_violated) = Inr r"
    by (auto split: sum.splits list.splits dest: c)
next
  assume asm: "(case comma_operands_address_of f env mode (operands e) exprt_empty d s of
             Inl e \<Rightarrow> Inl e
           | Inr (result, dest1, st1) \<Rightarrow> fa result dest1 st1) = Inr r"
  then obtain res d1 s1 where
    com: "comma_operands_address_of f env mode (operands e) exprt_empty d s = Inr (res, d1, s1)"
    by (auto split: sum.splits)
  then have "comma_operands_address_of g env mode (operands e) exprt_empty d s =
               Inr (res, d1, s1)"
    by (rule comma_operands_address_of_mono[rotated]) (rule c)
  moreover from asm com have "ga res d1 s1 = Inr r" by (auto dest: a)
  ultimately show "(case comma_operands_address_of g env mode (operands e) exprt_empty d s of
             Inl e \<Rightarrow> Inl e
           | Inr (result, dest1, st1) \<Rightarrow> ga result dest1 st1) = Inr r"
    by simp
next
  assume asm: "(case forall_operands fa (operands e) d s of
             Inl e \<Rightarrow> Inl e
           | Inr (ops', dest1, st1) \<Rightarrow> Inr (set_operands e ops', dest1, st1)) = Inr r"
  then obtain ops' d1 s1 where
    ops: "forall_operands fa (operands e) d s = Inr (ops', d1, s1)"
    by (auto split: sum.splits)
  then have "forall_operands ga (operands e) d s = Inr (ops', d1, s1)"
    by (rule forall_operands_mono[rotated]) (rule a)
  with asm ops show "(case forall_operands ga (operands e) d s of
             Inl e \<Rightarrow> Inl e
           | Inr (ops', dest1, st1) \<Rightarrow> Inr (set_operands e ops', dest1, st1)) = Inr r"
    by simp
qed

lemma remove_gcc_conditional_expression_body_mono:
  assumes c: "\<And>x d b s r. f x d b s = Inr r \<Longrightarrow> g x d b s = Inr r"
    and body: "remove_gcc_conditional_expression_body f env e d s = Inr r"
  shows "remove_gcc_conditional_expression_body g env e d s = Inr r"
proof -
  from body obtain op0 op1 where ops: "operands e = [op0, op1]"
    by (auto simp: remove_gcc_conditional_expression_body_def split: list.splits)
  with body obtain op0' d1 s1 where
    first: "f op0 d (default_result_is_used env) s = Inr (op0', d1, s1)"
    by (auto simp: remove_gcc_conditional_expression_body_def split: sum.splits)
  then have "g op0 d (default_result_is_used env) s = Inr (op0', d1, s1)" by (rule c)
  then show ?thesis
    using body ops first
    by (auto simp: remove_gcc_conditional_expression_body_def Let_def dest: c)
qed

lemma clean_expr_fuel_step:
  "(\<forall>e d b s r. clean_expr n env e d mode b s = Inr r \<longrightarrow>
       clean_expr (Suc n) env e d mode b s = Inr r)
   \<and> (\<forall>e d s r. clean_expr_address_of n env e d mode s = Inr r \<longrightarrow>
       clean_expr_address_of (Suc n) env e d mode s = Inr r)
   \<and> (\<forall>e d s r. remove_gcc_conditional_expression n env e d mode s = Inr r \<longrightarrow>
       remove_gcc_conditional_expression (Suc n) env e d mode s = Inr r)"
proof (induction n)
  case 0
  show ?case by simp
next
  case (Suc n)
  then have c: "\<And>e d b s r. clean_expr n env e d mode b s = Inr r \<Longrightarrow>
                  clean_expr (Suc n) env e d mode b s = Inr r"
    and a: "\<And>e d s r. clean_expr_address_of n env e d mode s = Inr r \<Longrightarrow>
                  clean_expr_address_of (Suc n) env e d mode s = Inr r"
    and g: "\<And>e d s r. remove_gcc_conditional_expression n env e d mode s = Inr r \<Longrightarrow>
                  remove_gcc_conditional_expression (Suc n) env e d mode s = Inr r"
    by blast+
  show ?case
  proof (intro conjI allI impI)
    fix e d b s r
    assume "clean_expr (Suc n) env e d mode b s = Inr r"
    then have "clean_expr_body
                 (\<lambda>e d r s. clean_expr n env e d mode r s)
                 (\<lambda>e d s. clean_expr_address_of n env e d mode s)
                 (\<lambda>e d s. remove_gcc_conditional_expression n env e d mode s)
                 env e d mode b s = Inr r"
      by (simp only: clean_expr.simps(2))
    then have "clean_expr_body
                 (\<lambda>e d r s. clean_expr (Suc n) env e d mode r s)
                 (\<lambda>e d s. clean_expr_address_of (Suc n) env e d mode s)
                 (\<lambda>e d s. remove_gcc_conditional_expression (Suc n) env e d mode s)
                 env e d mode b s = Inr r"
      by (rule clean_expr_body_mono[rotated 3]) (erule c a g)+
    then show "clean_expr (Suc (Suc n)) env e d mode b s = Inr r"
      by (subst clean_expr.simps(2))
  next
    fix e d s r
    assume "clean_expr_address_of (Suc n) env e d mode s = Inr r"
    then have "clean_expr_address_of_body
                 (\<lambda>e d r s. clean_expr n env e d mode r s)
                 (\<lambda>e d s. clean_expr_address_of n env e d mode s)
                 env e d mode s = Inr r"
      by (simp only: clean_expr_address_of.simps(2))
    then have "clean_expr_address_of_body
                 (\<lambda>e d r s. clean_expr (Suc n) env e d mode r s)
                 (\<lambda>e d s. clean_expr_address_of (Suc n) env e d mode s)
                 env e d mode s = Inr r"
      by (rule clean_expr_address_of_body_mono[rotated 2]) (erule c a)+
    then show "clean_expr_address_of (Suc (Suc n)) env e d mode s = Inr r"
      by (subst clean_expr_address_of.simps(2))
  next
    fix e d s r
    assume "remove_gcc_conditional_expression (Suc n) env e d mode s = Inr r"
    then have "remove_gcc_conditional_expression_body
                 (\<lambda>e d r s. clean_expr n env e d mode r s) env e d s = Inr r"
      by (simp only: remove_gcc_conditional_expression.simps(2))
    then have "remove_gcc_conditional_expression_body
                 (\<lambda>e d r s. clean_expr (Suc n) env e d mode r s) env e d s = Inr r"
      by (rule remove_gcc_conditional_expression_body_mono[rotated]) (erule c)
    then show "remove_gcc_conditional_expression (Suc (Suc n)) env e d mode s = Inr r"
      by (subst remove_gcc_conditional_expression.simps(2))
  qed
qed

theorem clean_expr_fuel_mono:
  assumes "n \<le> m"
  shows "(clean_expr n env e d mode b s = Inr r \<longrightarrow> clean_expr m env e d mode b s = Inr r)
       \<and> (clean_expr_address_of n env e d mode s = Inr r \<longrightarrow>
            clean_expr_address_of m env e d mode s = Inr r)
       \<and> (remove_gcc_conditional_expression n env e d mode s = Inr r \<longrightarrow>
            remove_gcc_conditional_expression m env e d mode s = Inr r)"
  using assms
proof (induction m)
  case 0
  then show ?case by simp
next
  case (Suc m)
  show ?case
  proof (cases "n = Suc m")
    case True
    then show ?thesis by simp
  next
    case False
    with Suc.prems have "n \<le> m" by simp
    with Suc.IH clean_expr_fuel_step[of m env mode] show ?thesis by blast
  qed
qed

subsection \<open>The dispatch with the result discarded\<close>














lemma clean_expr_comma_dispatch:
  "expr_id expr = ID_comma \<Longrightarrow>
   clean_expr (Suc n) env expr dest mode result_is_used st =
     clean_expr_comma (\<lambda>e d r s. clean_expr n env e d mode r s) env expr dest mode
       result_is_used st"
  by (simp add: clean_expr_body_def needs_cleaning_sel)

subsection \<open>The classifier\<close>

text \<open>
  Claim C3. \<^verbatim>\<open>needs_cleaning\<close> returns true exactly when the expression itself, or
  a subexpression reachable without passing through a \<^verbatim>\<open>forall\<close> or \<^verbatim>\<open>exists\<close>
  node, is a side effect, a compound literal or a comma expression; a quantifier
  node is never reported, whatever its body. The function is a pure predicate of
  the expression: it returns a truth value and has no program or state to change.
\<close>

theorem needs_cleaning_iff_reachable:
  "(needs_cleaning e \<longleftrightarrow> (\<exists>s \<in> set (reachable_subexprs e). is_cleaning_kind s))
   \<and> (expr_id e = ID_forall \<or> expr_id e = ID_exists \<longrightarrow> \<not> needs_cleaning e)"
  by (cases e)
     (auto simp add: needs_cleaning_reachable(1) list_ex_iff is_cleaning_kind_def)

theorem needs_cleaning_iff_reachable_witness:
  "needs_cleaning ex_plus
   \<and> (\<exists>s \<in> set (reachable_subexprs ex_plus). is_cleaning_kind s)
   \<and> needs_cleaning ex_comma_ac
   \<and> \<not> needs_cleaning ex_forall"
proof -
  have plus: "needs_cleaning ex_plus" by code_simp
  have comma: "needs_cleaning ex_comma_ac" by code_simp
  have quantifier: "expr_id ex_forall = ID_forall" by code_simp
  from needs_cleaning_iff_reachable[of ex_plus] plus
  have reach: "\<exists>s \<in> set (reachable_subexprs ex_plus). is_cleaning_kind s" by blast
  from needs_cleaning_iff_reachable[of ex_forall] quantifier
  have "\<not> needs_cleaning ex_forall" by blast
  with plus reach comma show ?thesis by blast
qed

subsection \<open>The desugarer\<close>

text \<open>
  Claim C2. On a boolean node with boolean operands, \<^verbatim>\<open>rewrite_boolean\<close> turns
  \<open>a ==> b\<close> into \<open>a ? b : true\<close>, an n-ary \<^verbatim>\<open>and\<close> into the right-nested chain
  whose true branches continue the chain and whose false branches are the
  constant false, an n-ary \<^verbatim>\<open>or\<close> into the dual chain; and whatever it returns
  has an id other than \<^verbatim>\<open>and\<close>, \<^verbatim>\<open>or\<close> and \<^verbatim>\<open>=>\<close>.
\<close>

theorem rewrite_boolean_chain:
  assumes "is_boolean expr" and "\<forall>op \<in> set (operands expr). is_boolean op"
  shows "(expr_id expr = ID_implies \<and> operands expr = [a, b] \<longrightarrow>
            rewrite_boolean expr = Inr (if_exprt4 a b true_exprt bool_typet))
       \<and> (expr_id expr = ID_and \<longrightarrow> rewrite_boolean expr = Inr (and_chain (operands expr)))
       \<and> (expr_id expr = ID_or \<longrightarrow> rewrite_boolean expr = Inr (or_chain (operands expr)))
       \<and> (\<forall>expr'. rewrite_boolean expr = Inr expr' \<longrightarrow>
            expr_id expr' \<noteq> ID_and \<and> expr_id expr' \<noteq> ID_or \<and> expr_id expr' \<noteq> ID_implies)"
proof -
  have post: "expr_id expr' \<noteq> ID_and \<and> expr_id expr' \<noteq> ID_or \<and> expr_id expr' \<noteq> ID_implies"
    if "rewrite_boolean expr = Inr expr'" for expr'
  proof -
    have "expr_id expr' = ID_if \<or> expr_id expr' = ID_constant"
      using that rewrite_boolean_loop_id[of "expr_id expr" "rev (operands expr)" _ expr']
      by (auto simp: rewrite_boolean_def if_exprt4_def true_exprt_def false_exprt_def
               split: if_splits list.splits)
    then show ?thesis by auto
  qed
  have imp: "rewrite_boolean expr = Inr (if_exprt4 a b true_exprt bool_typet)"
    if "expr_id expr = ID_implies \<and> operands expr = [a, b]"
    using that assms(1) by (simp add: rewrite_boolean_def)
  have conj: "rewrite_boolean expr = Inr (and_chain (operands expr))"
    if "expr_id expr = ID_and"
    using that assms by (simp add: rewrite_boolean_def rewrite_boolean_loop_and and_chain_foldr)
  have disj: "rewrite_boolean expr = Inr (or_chain (operands expr))"
    if "expr_id expr = ID_or"
    using that assms by (simp add: rewrite_boolean_def rewrite_boolean_loop_or or_chain_foldr)
  from imp conj disj post show ?thesis by blast
qed

theorem rewrite_boolean_chain_witness:
  "rewrite_boolean (nary_expr ID_and bool_typet [ex_c, ex_d, ex_c]) =
     Inr (if_exprt ex_c (if_exprt ex_d (if_exprt ex_c true_exprt false_exprt) false_exprt)
            false_exprt)
   \<and> rewrite_boolean (nary_expr ID_or bool_typet [ex_c, ex_d]) =
     Inr (if_exprt ex_c true_exprt (if_exprt ex_d true_exprt false_exprt))
   \<and> rewrite_boolean (nary_expr ID_implies bool_typet [ex_c, ex_d]) =
     Inr (if_exprt4 ex_c ex_d true_exprt bool_typet)"
proof -
  have b: "is_boolean (nary_expr i bool_typet ops)" for i ops
    by (simp add: is_boolean_def nary_expr_def)
  have ops: "\<forall>op \<in> set (operands (nary_expr i bool_typet ops)). is_boolean op"
    if "ops = [ex_c, ex_d, ex_c] \<or> ops = [ex_c, ex_d]" for i ops
    using that by (auto simp: nary_expr_def is_boolean_def ex_c_def ex_d_def mk_symbol_def)
  show ?thesis
    using rewrite_boolean_chain[OF b ops, of "[ex_c, ex_d, ex_c]" ID_and ex_c ex_d]
      rewrite_boolean_chain[OF b ops, of "[ex_c, ex_d]" ID_or ex_c ex_d]
      rewrite_boolean_chain[OF b ops, of "[ex_c, ex_d]" ID_implies ex_c ex_d]
    by (simp add: nary_expr_def)
qed

text \<open>
  Claim C10. With no operand, a boolean \<^verbatim>\<open>and\<close> becomes the constant true and a
  boolean \<^verbatim>\<open>or\<close> the constant false; with the single boolean operand \<open>a\<close>, both
  become the conditional \<open>a ? true : false\<close>, which is not the bare operand.
\<close>

theorem rewrite_boolean_small:
  assumes "is_boolean expr"
  shows "(expr_id expr = ID_and \<and> operands expr = [] \<longrightarrow> rewrite_boolean expr = Inr true_exprt)
       \<and> (expr_id expr = ID_or \<and> operands expr = [] \<longrightarrow> rewrite_boolean expr = Inr false_exprt)
       \<and> ((expr_id expr = ID_and \<or> expr_id expr = ID_or) \<and> operands expr = [a] \<and> is_boolean a \<longrightarrow>
            rewrite_boolean expr = Inr (if_exprt a true_exprt false_exprt)
            \<and> if_exprt a true_exprt false_exprt \<noteq> a)"
proof -
  have "size (if_exprt a true_exprt false_exprt) > size a"
    by (simp add: if_exprt_def if_exprt4_def)
  then have "if_exprt a true_exprt false_exprt \<noteq> a" by auto
  then show ?thesis
    using assms by (auto simp: rewrite_boolean_def)
qed

theorem rewrite_boolean_small_witness:
  "rewrite_boolean (nary_expr ID_and bool_typet []) = Inr true_exprt
   \<and> rewrite_boolean (nary_expr ID_or bool_typet []) = Inr false_exprt
   \<and> rewrite_boolean (nary_expr ID_and bool_typet [ex_c]) =
       Inr (if_exprt ex_c true_exprt false_exprt)
   \<and> rewrite_boolean (nary_expr ID_or bool_typet [ex_c]) =
       Inr (if_exprt ex_c true_exprt false_exprt)"
proof -
  have b: "is_boolean (nary_expr i bool_typet ops)" for i ops
    by (simp add: is_boolean_def nary_expr_def)
  have c: "is_boolean ex_c"
    by (simp add: is_boolean_def ex_c_def mk_symbol_def)
  show ?thesis
    using rewrite_boolean_small[OF b, of ID_and "[]" ex_c]
      rewrite_boolean_small[OF b, of ID_or "[]" ex_c]
      rewrite_boolean_small[OF b, of ID_and "[ex_c]" ex_c]
      rewrite_boolean_small[OF b, of ID_or "[ex_c]" ex_c] c
    by (simp add: nary_expr_def)
qed


subsection \<open>The lowering engine: quantifiers\<close>

text \<open>
  Claim C9. On a \<^verbatim>\<open>forall\<close> or \<^verbatim>\<open>exists\<close> node, \<^verbatim>\<open>clean_expr\<close> returns at its
  first test: the node and its body are unchanged, no instruction is appended and
  the converter state (so the symbol table) is as before; no subexpression of the
  body is moved into a temporary. This holds for every positive recursion budget.
\<close>

theorem clean_expr_quantifier_untouched:
  assumes "expr_id expr = ID_forall \<or> expr_id expr = ID_exists"
  shows "clean_expr (Suc n) env expr dest mode result_is_used st = Inr (expr, dest, st)"
proof -
  have "\<not> needs_cleaning expr"
    using assms by (auto simp: needs_cleaning_sel)
  then show ?thesis
    by (simp add: clean_expr_body_def)
qed

theorem clean_expr_quantifier_untouched_witness:
  "expr_id ex_forall = ID_forall
   \<and> clean_expr (Suc 0) ref_env ex_forall [expression_statement ex_a] ''C'' True st0 =
       Inr (ex_forall, [expression_statement ex_a], st0)"
proof -
  have quantifier: "expr_id ex_forall = ID_forall" by code_simp
  show ?thesis
    using clean_expr_quantifier_untouched[OF disjI1[OF quantifier]] quantifier by simp
qed

subsection \<open>The lowering engine: conditionals\<close>

text \<open>
  Claim C5. On a conditional, the condition is lowered first, in used context,
  from the program and state of the call. If neither branch needs cleaning, that
  is all: the result is the conditional with the lowered condition and the same
  branches, and the program and state are those the lowering of the condition
  left, so no temporary is allocated and no branch is emitted. If lowering the
  condition fails, so does the call.
\<close>

theorem clean_expr_if_condition_only:
  assumes "expr_id expr = ID_if"
    and "operands expr = [cond, true_case, false_case]"
    and "needs_cleaning expr"
    and "\<not> needs_cleaning true_case" and "\<not> needs_cleaning false_case"
  shows "clean_expr (Suc n) env expr dest mode result_is_used st =
           (case clean_expr n env cond dest mode True st of
              Inl e \<Rightarrow> Inl e
            | Inr (cond', dest1, st1) \<Rightarrow>
                Inr (set_operands expr [cond', true_case, false_case], dest1, st1))"
  using assms
  by (simp add: clean_expr_body_def clean_expr_if_def split: sum.splits)

theorem clean_expr_if_condition_only_witness:
  "needs_cleaning ex_if_cond
   \<and> clean_expr (Suc 2) ref_env ex_if_cond [] ''C'' False st0 =
       Inr (if_exprt ex_c ex_a ex_b, [expression_statement ex_a], st0)"
proof -
  have h1: "expr_id ex_if_cond = ID_if" by code_simp
  have h2: "operands ex_if_cond = [ex_comma_ac, ex_a, ex_b]" by code_simp
  have h3: "needs_cleaning ex_if_cond" by code_simp
  have h4: "\<not> needs_cleaning ex_a" by code_simp
  have h5: "\<not> needs_cleaning ex_b" by code_simp
  have cond: "clean_expr 2 ref_env ex_comma_ac [] ''C'' True st0 =
                Inr (ex_c, [expression_statement ex_a], st0)"
    by code_simp
  have res: "set_operands ex_if_cond [ex_c, ex_a, ex_b] = if_exprt ex_c ex_a ex_b"
    by code_simp
  show ?thesis
    using clean_expr_if_condition_only[OF h1 h2 h3 h4 h5, of 2 ref_env "[]" "''C''" False st0]
      h3 cond res
    by simp
qed

text \<open>
  Claim C4. On a conditional one of whose branches needs cleaning, with the
  result used: after the condition, the true branch and the false branch are each
  lowered (as used) into a fragment of its own; one temporary is requested from
  \<^verbatim>\<open>new_tmp_symbol\<close>, of the type of the conditional; the assignment of the
  lowered true branch to it is converted onto the end of the true fragment and
  that of the lowered false branch onto the end of the false fragment;
  \<^verbatim>\<open>generate_ifthenelse\<close> emits the branch on the lowered condition over the two
  fragments; and the expression becomes the reference to the temporary. The
  call returns this with every recursion budget above the one with which the
  three sub-lowerings returned.
\<close>

theorem clean_expr_if_used:
  assumes "expr_id expr = ID_if"
    and "operands expr = [cond, true_case, false_case]"
    and "needs_cleaning true_case \<or> needs_cleaning false_case"
    and "clean_expr n env cond dest mode True st = Inr (cond', dest1, st1)"
    and "is_boolean cond'"
    and "loc = find_source_location env (set_operands expr [cond', true_case, false_case])"
    and "clean_expr n env true_case [] mode True st1 = Inr (true_case', tmp_true, st2)"
    and "clean_expr n env false_case [] mode True st2 = Inr (false_case', tmp_false, st3)"
    and "new_tmp_symbol env (expr_type expr) ''if_expr'' dest1 loc mode st3 =
           Inr (new_symbol, dest2, st4)"
    and "convert env (code_assignt (symbol_expr new_symbol) true_case' loc)
           tmp_true mode st4 = Inr (tmp_true1, st5)"
    and "convert env (code_assignt (symbol_expr new_symbol) false_case' loc)
           tmp_false mode st5 = Inr (tmp_false1, st6)"
    and "generate_ifthenelse env cond' tmp_true1 tmp_false1 loc dest2 mode st6 =
           Inr (dest3, st7)"
    and "n < m"
  shows "clean_expr m env expr dest mode True st = Inr (symbol_expr new_symbol, dest3, st7)"
proof -
  have nc: "needs_cleaning expr"
    using assms(1-3) by (auto simp: needs_cleaning_sel needs_cleaning_operands_iff)
  have ty: "expr_type (set_operands expr [cond', true_case, false_case]) = expr_type expr"
    by (simp add: set_operands_def)
  have "clean_expr_if (\<lambda>e d r s. clean_expr n env e d mode r s) env expr dest mode True st =
          Inr (symbol_expr new_symbol, dest3, st7)"
    unfolding clean_expr_if_def
    using assms(2-5) assms(7-12)[unfolded assms(6)]
    by (cases "needs_cleaning true_case") (simp_all add: ty Let_def)
  then have "clean_expr (Suc n) env expr dest mode True st =
               Inr (symbol_expr new_symbol, dest3, st7)"
    using nc assms(1) by (simp add: clean_expr_body_def)
  moreover have "Suc n \<le> m" using assms(13) by simp
  ultimately show ?thesis
    using clean_expr_fuel_mono[of "Suc n" m] by blast
qed

theorem clean_expr_if_used_witness:
  "clean_expr (Suc 2) ref_env ex_if [] ''C'' True st0 =
     Inr (symbol_expr ex_tmp,
          [Instruction DECL (code_declt (symbol_expr ex_tmp)) nil_exprt,
           Instruction GOTO code_skipt (nary_expr ''not'' bool_typet [ex_c]),
           expression_statement ex_a,
           assign_statement (symbol_expr ex_tmp) ex_b,
           Instruction GOTO code_skipt true_exprt,
           assign_statement (symbol_expr ex_tmp) zero,
           Instruction SKIP code_skipt nil_exprt],
          st_tmp)"
proof -
  have h1: "expr_id ex_if = ID_if" by code_simp
  have h2: "operands ex_if = [ex_c, ex_comma_ab, zero]" by code_simp
  have h3: "needs_cleaning ex_comma_ab \<or> needs_cleaning zero" by code_simp
  have h4: "clean_expr 2 ref_env ex_c [] ''C'' True st0 = Inr (ex_c, [], st0)" by code_simp
  have h5: "is_boolean ex_c" by code_simp
  have h6: "[] = find_source_location ref_env (set_operands ex_if [ex_c, ex_comma_ab, zero])"
    by code_simp
  have h7: "clean_expr 2 ref_env ex_comma_ab [] ''C'' True st0 =
              Inr (ex_b, [expression_statement ex_a], st0)"
    by code_simp
  have h8: "clean_expr 2 ref_env zero [] ''C'' True st0 = Inr (zero, [], st0)" by code_simp
  have h9: "new_tmp_symbol ref_env (expr_type ex_if) ''if_expr'' [] [] ''C'' st0 =
              Inr (ex_tmp, [Instruction DECL (code_declt (symbol_expr ex_tmp)) nil_exprt], st_tmp)"
    by code_simp
  have h10: "convert ref_env (code_assignt (symbol_expr ex_tmp) ex_b [])
               [expression_statement ex_a] ''C'' st_tmp =
             Inr ([expression_statement ex_a, assign_statement (symbol_expr ex_tmp) ex_b], st_tmp)"
    by code_simp
  have h11: "convert ref_env (code_assignt (symbol_expr ex_tmp) zero []) [] ''C'' st_tmp =
             Inr ([assign_statement (symbol_expr ex_tmp) zero], st_tmp)"
    by code_simp
  have h12: "generate_ifthenelse ref_env ex_c
               [expression_statement ex_a, assign_statement (symbol_expr ex_tmp) ex_b]
               [assign_statement (symbol_expr ex_tmp) zero] []
               [Instruction DECL (code_declt (symbol_expr ex_tmp)) nil_exprt] ''C'' st_tmp =
             Inr ([Instruction DECL (code_declt (symbol_expr ex_tmp)) nil_exprt,
                   Instruction GOTO code_skipt (nary_expr ''not'' bool_typet [ex_c]),
                   expression_statement ex_a,
                   assign_statement (symbol_expr ex_tmp) ex_b,
                   Instruction GOTO code_skipt true_exprt,
                   assign_statement (symbol_expr ex_tmp) zero,
                   Instruction SKIP code_skipt nil_exprt], st_tmp)"
    by code_simp
  have budget: "2 < Suc 2" by simp
  show ?thesis
    by (rule clean_expr_if_used[OF h1 h2 h3 h4 h5 h6 h7 h8 h9 h10 h11 h12 budget])
qed

text \<open>
  Claim C6, as the code has it. On a conditional one of whose branches needs
  cleaning, with the result discarded: the branches are lowered as discarded,
  each into its own fragment; the lowered value of a branch is converted onto the
  end of its fragment as an expression statement under a cast to void only when
  it is not nil (a branch that lowered to nil adds nothing); the branch on the
  lowered condition is emitted over the two fragments; and the expression
  becomes nil. The call returns this with every recursion budget above the one
  with which the three sub-lowerings returned.
\<close>

theorem clean_expr_if_discarded:
  assumes "expr_id expr = ID_if"
    and "operands expr = [cond, true_case, false_case]"
    and "needs_cleaning true_case \<or> needs_cleaning false_case"
    and "clean_expr n env cond dest mode True st = Inr (cond', dest1, st1)"
    and "is_boolean cond'"
    and "loc = find_source_location env (set_operands expr [cond', true_case, false_case])"
    and "clean_expr n env true_case [] mode False st1 = Inr (true_case', tmp_true, st2)"
    and "clean_expr n env false_case [] mode False st2 = Inr (false_case', tmp_false, st3)"
    and "(if is_not_nil true_case'
          then convert env (code_expressiont (typecast_exprt true_case' empty_typet))
                 tmp_true mode st3
          else Inr (tmp_true, st3)) = Inr (tmp_true1, st4)"
    and "(if is_not_nil false_case'
          then convert env (code_expressiont (typecast_exprt false_case' empty_typet))
                 tmp_false mode st4
          else Inr (tmp_false, st4)) = Inr (tmp_false1, st5)"
    and "generate_ifthenelse env cond' tmp_true1 tmp_false1 loc dest1 mode st5 =
           Inr (dest2, st6)"
    and "n < m"
  shows "clean_expr m env expr dest mode False st = Inr (nil_exprt, dest2, st6)"
proof -
  have nc: "needs_cleaning expr"
    using assms(1-3) by (auto simp: needs_cleaning_sel needs_cleaning_operands_iff)
  have "clean_expr_if (\<lambda>e d r s. clean_expr n env e d mode r s) env expr dest mode False st =
          Inr (nil_exprt, dest2, st6)"
    unfolding clean_expr_if_def
    using assms(2-5) assms(7-11)[unfolded assms(6)]
    by (cases "needs_cleaning true_case") (simp_all add: Let_def)
  then have "clean_expr (Suc n) env expr dest mode False st = Inr (nil_exprt, dest2, st6)"
    using nc assms(1) by (simp add: clean_expr_body_def)
  moreover have "Suc n \<le> m" using assms(12) by simp
  ultimately show ?thesis
    using clean_expr_fuel_mono[of "Suc n" m] by blast
qed

theorem clean_expr_if_discarded_witness:
  "clean_expr (Suc 2) ref_env ex_if [] ''C'' False st0 =
     Inr (nil_exprt,
          ex_if_discarded_program, st0)"
proof -
  have h1: "expr_id ex_if = ID_if" by code_simp
  have h2: "operands ex_if = [ex_c, ex_comma_ab, zero]" by code_simp
  have h3: "needs_cleaning ex_comma_ab \<or> needs_cleaning zero" by code_simp
  have h4: "clean_expr 2 ref_env ex_c [] ''C'' True st0 = Inr (ex_c, [], st0)" by code_simp
  have h5: "is_boolean ex_c" by code_simp
  have h6: "[] = find_source_location ref_env (set_operands ex_if [ex_c, ex_comma_ab, zero])"
    by code_simp
  have h7: "clean_expr 2 ref_env ex_comma_ab [] ''C'' False st0 =
              Inr (nil_exprt, [expression_statement ex_a, expression_statement ex_b], st0)"
    by code_simp
  have h8: "clean_expr 2 ref_env zero [] ''C'' False st0 = Inr (zero, [], st0)" by code_simp
  have h9: "(if is_not_nil nil_exprt
             then convert ref_env (code_expressiont (typecast_exprt nil_exprt empty_typet))
                    [expression_statement ex_a, expression_statement ex_b] ''C'' st0
             else Inr ([expression_statement ex_a, expression_statement ex_b], st0)) =
            Inr ([expression_statement ex_a, expression_statement ex_b], st0)"
    by code_simp
  have h10: "(if is_not_nil zero
              then convert ref_env (code_expressiont (typecast_exprt zero empty_typet))
                     [] ''C'' st0
              else Inr ([], st0)) =
             Inr ([expression_statement (typecast_exprt zero empty_typet)], st0)"
    by code_simp
  have h11: "generate_ifthenelse ref_env ex_c
               [expression_statement ex_a, expression_statement ex_b]
               [expression_statement (typecast_exprt zero empty_typet)] [] [] ''C'' st0 =
             Inr (ex_if_discarded_program, st0)"
    by code_simp
  have budget: "2 < Suc 2" by simp
  show ?thesis
    by (rule clean_expr_if_discarded[OF h1 h2 h3 h4 h5 h6 h7 h8 h9 h10 h11 budget])
qed

text \<open>
  Claim C6 as stated fails where a branch lowers to nil. In \<open>c ? (a, b) : 0\<close> with
  the result discarded, the true branch \<open>(a, b)\<close> lowers to nil, leaving the
  fragment with the statements \<open>a\<close> and \<open>b\<close>; the true fragment handed to the
  branch construct is that very fragment: no void-cast statement of the lowered
  value was appended to it, while the false fragment got \<open>(void) 0\<close>.
\<close>

theorem clean_expr_if_discarded_counterexample:
  "clean_expr 2 ref_env ex_comma_ab [] ''C'' False st0 =
     Inr (nil_exprt, [expression_statement ex_a, expression_statement ex_b], st0)
   \<and> clean_expr 3 ref_env ex_if [] ''C'' False st0 =
     Inr (nil_exprt,
          [Instruction GOTO code_skipt (nary_expr ''not'' bool_typet [ex_c])]
          @ [expression_statement ex_a, expression_statement ex_b]
          @ [Instruction GOTO code_skipt true_exprt]
          @ [expression_statement (typecast_exprt zero empty_typet)]
          @ [Instruction SKIP code_skipt nil_exprt],
          st0)"
  by code_simp

subsection \<open>The lowering engine: comma expressions\<close>

text \<open>
  Claim C7, as the code has it. On a comma expression whose first operand is
  \<open>x\<close> and whose other operands are \<open>rest\<close>:
  \<^item> when \<open>rest\<close> is not empty, \<open>x\<close> is lowered with the result discarded
    (\<^verbatim>\<open>result_is_used\<close> false), whatever the usage context of the call; when its
    lowered form is not nil it is converted as an expression statement, and when
    it is nil no statement is emitted; the call then goes on as the call on the
    comma expression of the operands \<open>rest\<close>, in the usage context of the call,
    from the program and the state reached. So the operands but the last are
    treated from left to right;
  \<^item> when \<open>x\<close> is the last operand and the result is used, the call is the
    lowering of \<open>x\<close> with the result used: its result is the result;
  \<^item> when \<open>x\<close> is the last operand and the result is discarded, \<open>x\<close> is lowered
    as discarded and emitted as the others are, and the expression becomes nil.
\<close>

theorem clean_expr_comma_order:
  assumes "expr_id expr = ID_comma" and "operands expr = x # rest"
  shows "(rest \<noteq> [] \<longrightarrow>
            clean_expr (Suc n) env expr dest mode result_is_used st =
              (case clean_expr n env x dest mode False st of
                 Inl e \<Rightarrow> Inl e
               | Inr (x', dest1, st1) \<Rightarrow>
                   (case (if is_not_nil x'
                          then convert env (code_expressiont x') dest1 mode st1
                          else Inr (dest1, st1)) of
                      Inl e \<Rightarrow> Inl e
                    | Inr (dest2, st2) \<Rightarrow>
                        clean_expr (Suc n) env (set_operands expr rest) dest2 mode
                          result_is_used st2)))
       \<and> (rest = [] \<longrightarrow>
            clean_expr (Suc n) env expr dest mode True st =
              clean_expr n env x dest mode True st)
       \<and> (rest = [] \<longrightarrow>
            clean_expr (Suc n) env expr dest mode False st =
              (case clean_expr n env x dest mode False st of
                 Inl e \<Rightarrow> Inl e
               | Inr (x', dest1, st1) \<Rightarrow>
                   (case (if is_not_nil x'
                          then convert env (code_expressiont x') dest1 mode st1
                          else Inr (dest1, st1)) of
                      Inl e \<Rightarrow> Inl e
                    | Inr (dest2, st2) \<Rightarrow> Inr (nil_exprt, dest2, st2))))"
proof -
  have rest_comma: "expr_id (set_operands expr rest) = ID_comma"
    and rest_ops: "operands (set_operands expr rest) = rest"
    using assms(1) by (simp_all add: set_operands_def)
  have more: "clean_expr (Suc n) env expr dest mode result_is_used st =
              (case clean_expr n env x dest mode False st of
                 Inl e \<Rightarrow> Inl e
               | Inr (x', dest1, st1) \<Rightarrow>
                   (case (if is_not_nil x'
                          then convert env (code_expressiont x') dest1 mode st1
                          else Inr (dest1, st1)) of
                      Inl e \<Rightarrow> Inl e
                    | Inr (dest2, st2) \<Rightarrow>
                        clean_expr (Suc n) env (set_operands expr rest) dest2 mode
                          result_is_used st2))"
    if "rest \<noteq> []"
    unfolding clean_expr_comma_dispatch[OF assms(1)] clean_expr_comma_dispatch[OF rest_comma]
    using that
    by (cases result_is_used)
       (simp_all add: clean_expr_comma_def assms(2) rest_ops clean_discarded_def
          split: sum.splits)
  have last_used: "clean_expr (Suc n) env expr dest mode True st =
              clean_expr n env x dest mode True st"
    if "rest = []"
    unfolding clean_expr_comma_dispatch[OF assms(1)]
    using that by (simp add: clean_expr_comma_def assms(2))
  have last_discarded: "clean_expr (Suc n) env expr dest mode False st =
              (case clean_expr n env x dest mode False st of
                 Inl e \<Rightarrow> Inl e
               | Inr (x', dest1, st1) \<Rightarrow>
                   (case (if is_not_nil x'
                          then convert env (code_expressiont x') dest1 mode st1
                          else Inr (dest1, st1)) of
                      Inl e \<Rightarrow> Inl e
                    | Inr (dest2, st2) \<Rightarrow> Inr (nil_exprt, dest2, st2)))"
    if "rest = []"
    unfolding clean_expr_comma_dispatch[OF assms(1)]
    using that
    by (simp add: clean_expr_comma_def assms(2) clean_discarded_def split: sum.splits)
  from more last_used last_discarded show ?thesis by blast
qed

theorem clean_expr_comma_order_witness:
  "clean_expr (Suc 2) ref_env ex_comma_fbx [] ''C'' True st0 =
     Inr (ex_x, [function_call_statement call_f, expression_statement ex_b], st0)
   \<and> clean_expr (Suc 2) ref_env ex_comma_fbx [] ''C'' False st0 =
     Inr (nil_exprt,
          [function_call_statement call_f, expression_statement ex_b,
           expression_statement ex_x],
          st0)
   \<and> clean_expr (Suc 2) ref_env (comma_expr [ex_x]) [expression_statement ex_a] ''C'' True st0 =
     Inr (ex_x, [expression_statement ex_a], st0)
   \<and> clean_expr (Suc 2) ref_env (comma_expr [ex_x]) [expression_statement ex_a] ''C'' False st0 =
     Inr (nil_exprt, [expression_statement ex_a, expression_statement ex_x], st0)"
proof -
  have h1: "expr_id ex_comma_fbx = ID_comma" by code_simp
  have h2: "operands ex_comma_fbx = call_f # [ex_b, ex_x]" by code_simp
  have more: "[ex_b, ex_x] \<noteq> []" by simp
  have s1: "expr_id (comma_expr [ex_x]) = ID_comma" by code_simp
  have s2: "operands (comma_expr [ex_x]) = ex_x # []" by code_simp
  have head: "clean_expr 2 ref_env call_f [] ''C'' False st0 =
                Inr (nil_exprt, [function_call_statement call_f], st0)"
    by code_simp
  have emitted: "(if is_not_nil nil_exprt
                  then convert ref_env (code_expressiont nil_exprt)
                         [function_call_statement call_f] ''C'' st0
                  else Inr ([function_call_statement call_f], st0)) =
                 Inr ([function_call_statement call_f], st0)"
    by code_simp
  have tail_used: "clean_expr (Suc 2) ref_env (set_operands ex_comma_fbx [ex_b, ex_x])
                     [function_call_statement call_f] ''C'' True st0 =
                   Inr (ex_x, [function_call_statement call_f, expression_statement ex_b], st0)"
    by code_simp
  have tail_discarded: "clean_expr (Suc 2) ref_env (set_operands ex_comma_fbx [ex_b, ex_x])
                     [function_call_statement call_f] ''C'' False st0 =
                   Inr (nil_exprt,
                        [function_call_statement call_f, expression_statement ex_b,
                         expression_statement ex_x], st0)"
    by code_simp
  have single_used: "clean_expr 2 ref_env ex_x [expression_statement ex_a] ''C'' True st0 =
                       Inr (ex_x, [expression_statement ex_a], st0)"
    by code_simp
  have single_discarded:
    "clean_expr 2 ref_env ex_x [expression_statement ex_a] ''C'' False st0 =
       Inr (ex_x, [expression_statement ex_a], st0)"
    by code_simp
  have single_emitted:
    "(if is_not_nil ex_x
      then convert ref_env (code_expressiont ex_x) [expression_statement ex_a] ''C'' st0
      else Inr ([expression_statement ex_a], st0)) =
     Inr ([expression_statement ex_a, expression_statement ex_x], st0)"
    by code_simp
  note fbx = clean_expr_comma_order[OF h1 h2, of 2 ref_env "[]" "''C''" _ st0]
  note single = clean_expr_comma_order[OF s1 s2, of 2 ref_env "[expression_statement ex_a]"
                  "''C''" True st0]
  have c1: "clean_expr (Suc 2) ref_env ex_comma_fbx [] ''C'' True st0 =
     Inr (ex_x, [function_call_statement call_f, expression_statement ex_b], st0)"
    using fbx[of True, THEN conjunct1, THEN mp, OF more]
    by (simp only: head emitted tail_used sum.case prod.case)
  have c2: "clean_expr (Suc 2) ref_env ex_comma_fbx [] ''C'' False st0 =
     Inr (nil_exprt,
          [function_call_statement call_f, expression_statement ex_b,
           expression_statement ex_x],
          st0)"
    using fbx[of False, THEN conjunct1, THEN mp, OF more]
    by (simp only: head emitted tail_discarded sum.case prod.case)
  have c3: "clean_expr (Suc 2) ref_env (comma_expr [ex_x]) [expression_statement ex_a] ''C''
              True st0 = Inr (ex_x, [expression_statement ex_a], st0)"
    using single[THEN conjunct2, THEN conjunct1, THEN mp, OF refl]
    by (simp only: single_used)
  have c4: "clean_expr (Suc 2) ref_env (comma_expr [ex_x]) [expression_statement ex_a] ''C''
              False st0 =
            Inr (nil_exprt, [expression_statement ex_a, expression_statement ex_x], st0)"
    using single[THEN conjunct2, THEN conjunct2, THEN mp, OF refl]
    by (simp only: single_discarded single_emitted sum.case prod.case)
  from c1 c2 c3 c4 show ?thesis by blast
qed

text \<open>
  Claim C7 as stated fails where an operand lowers to nil. In \<open>((a, b), x)\<close> with
  the result used, the first operand \<open>(a, b)\<close> lowers, discarded, to nil, leaving
  the statements \<open>a\<close> and \<open>b\<close>; the program of the whole expression is exactly
  that: no expression statement was emitted for the operand \<open>(a, b)\<close> itself.
\<close>

theorem clean_expr_comma_counterexample:
  "clean_expr 2 ref_env ex_comma_ab [] ''C'' False st0 =
     Inr (nil_exprt, [expression_statement ex_a, expression_statement ex_b], st0)
   \<and> clean_expr 3 ref_env (comma_expr [ex_comma_ab, ex_x]) [] ''C'' True st0 =
     Inr (ex_x, [expression_statement ex_a, expression_statement ex_b], st0)"
  by code_simp

subsection \<open>The lowering engine: discarded results\<close>





subsection \<open>The compound-literal materializer\<close>

text \<open>
  Claim C8. \<^verbatim>\<open>make_compound_literal\<close> allocates one temporary: its name is in no
  entry of the symbol table of the call, it has the type of the literal, and it is
  static exactly when the lifetime of the converter is not \<^verbatim>\<open>AUTOMATIC_LOCAL\<close>.
  The assignment of the literal to the temporary is converted in the state whose
  table is the old one followed by the one new entry, and onto the program that,
  for a block-scoped temporary, has got the \<^verbatim>\<open>DECL\<close> of the temporary appended
  and, for a static one, is unchanged. When the conversion returns, the function
  returns the symbol expression of the temporary, carrying the source location
  of the literal; the \<^verbatim>\<open>dead\<close> statement of the temporary is registered on the
  scope stack for a block-scoped temporary and not for a static one.
\<close>

theorem make_compound_literal_temporary:
  assumes "loc = find_source_location env expr"
    and "fresh = fst (get_fresh_aux_symbol (expr_type expr) (tmp_symbol_prefix st) ''literal''
                        loc mode (symbol_table st))"
    and "new_symbol = fresh\<lparr> is_static_lifetime := (lifetime st \<noteq> AUTOMATIC_LOCAL),
                             symbol_value := expr \<rparr>"
    and "result = Exprt ID_symbol (expr_type expr) [] [] (name fresh) [] loc"
    and "dest1 = (if lifetime st = AUTOMATIC_LOCAL
                  then dest @ [Instruction DECL (code_declt result) nil_exprt] else dest)"
    and "st1 = st\<lparr> symbol_table := symbol_table st @ [(name fresh, new_symbol)] \<rparr>"
    and "convert env (code_assignt result expr loc) dest1 mode st1 = Inr (dest2, st2)"
  shows "name fresh \<notin> fst ` set (symbol_table st)
       \<and> symbol_type new_symbol = expr_type expr
       \<and> is_static_lifetime new_symbol = (lifetime st \<noteq> AUTOMATIC_LOCAL)
       \<and> make_compound_literal env expr dest mode st =
           Inr (result, dest2,
                if lifetime st = AUTOMATIC_LOCAL
                then st2\<lparr> scope_stack := scope_stack st2 @ [code_deadt result] \<rparr>
                else st2)"
proof -
  have fresh_name: "name fresh \<notin> fst ` set (symbol_table st)"
    unfolding assms(2) by (simp add: get_fresh_aux_symbol_def Let_def fresh_name_notin)
  have ty: "symbol_type new_symbol = expr_type expr"
    unfolding assms(2,3) by (simp add: get_fresh_aux_symbol_def Let_def)
  have static: "is_static_lifetime new_symbol = (lifetime st \<noteq> AUTOMATIC_LOCAL)"
    unfolding assms(3) by simp
  have "make_compound_literal env expr dest mode st =
           Inr (result, dest2,
                if lifetime st = AUTOMATIC_LOCAL
                then st2\<lparr> scope_stack := scope_stack st2 @ [code_deadt result] \<rparr>
                else st2)"
    using assms(7) unfolding assms(1-6) make_compound_literal_def
    by (cases "lifetime st = AUTOMATIC_LOCAL")
       (simp_all add: Let_def get_fresh_aux_symbol_def symbol_table_write_fresh
          fresh_name_notin add_source_location_def symbol_expr_def copy_def
          scope_stack_add_def)
  with fresh_name ty static show ?thesis by simp
qed

theorem make_compound_literal_temporary_witness:
  "name ex_fresh \<notin> fst ` set (symbol_table st0)
   \<and> symbol_type ex_literal = expr_type zero
   \<and> \<not> is_static_lifetime ex_literal
   \<and> make_compound_literal ref_env zero [] ''C'' st0 =
       Inr (ex_literal_ref,
            [Instruction DECL (code_declt ex_literal_ref) nil_exprt,
             assign_statement ex_literal_ref zero],
            st0\<lparr> symbol_table := [(name ex_fresh, ex_literal)],
                 scope_stack := [code_deadt ex_literal_ref] \<rparr>)
   \<and> make_compound_literal ref_env zero [] ''C'' (st0\<lparr> lifetime := STATIC_GLOBAL \<rparr>) =
       Inr (ex_literal_ref,
            [assign_statement ex_literal_ref zero],
            st0\<lparr> lifetime := STATIC_GLOBAL,
                 symbol_table := [(name ex_fresh, ex_literal\<lparr> is_static_lifetime := True \<rparr>)] \<rparr>)"
proof -
  have h1: "[] = find_source_location ref_env zero" by code_simp
  have h2: "ex_fresh = fst (get_fresh_aux_symbol (expr_type zero) (tmp_symbol_prefix st0)
                              ''literal'' [] ''C'' (symbol_table st0))"
    by code_simp
  have h3: "ex_literal = ex_fresh\<lparr> is_static_lifetime := (lifetime st0 \<noteq> AUTOMATIC_LOCAL),
                                   symbol_value := zero \<rparr>"
    by (simp add: ex_literal_def)
  have h4: "ex_literal_ref = Exprt ID_symbol (expr_type zero) [] [] (name ex_fresh) [] []"
    by (simp add: ex_literal_ref_def)
  have h7: "convert ref_env (code_assignt ex_literal_ref zero [])
              (if lifetime st0 = AUTOMATIC_LOCAL
               then [] @ [Instruction DECL (code_declt ex_literal_ref) nil_exprt] else [])
              ''C'' (st0\<lparr> symbol_table := symbol_table st0 @ [(name ex_fresh, ex_literal)] \<rparr>) =
            Inr ([Instruction DECL (code_declt ex_literal_ref) nil_exprt,
                  assign_statement ex_literal_ref zero],
                 st0\<lparr> symbol_table := [(name ex_fresh, ex_literal)] \<rparr>)"
    by code_simp
  have static: "make_compound_literal ref_env zero [] ''C'' (st0\<lparr> lifetime := STATIC_GLOBAL \<rparr>) =
       Inr (ex_literal_ref,
            [assign_statement ex_literal_ref zero],
            st0\<lparr> lifetime := STATIC_GLOBAL,
                 symbol_table := [(name ex_fresh, ex_literal\<lparr> is_static_lifetime := True \<rparr>)] \<rparr>)"
    by code_simp
  show ?thesis
    using make_compound_literal_temporary[OF h1 h2 h3 h4 refl refl h7] static
    by (simp add: st0_def)
qed

end
